theory Spec2Isabelle
  imports Complex_Main
begin

section \<open>The file system the program runs on\<close>

text \<open>
  The packages \<^verbatim>\<open>ownedfile\<close> and \<^verbatim>\<open>main\<close> act on the file system through
  \<^verbatim>\<open>os.Stat\<close>, \<^verbatim>\<open>os.Create\<close>, \<^verbatim>\<open>File.WriteString\<close>, \<^verbatim>\<open>File.Close\<close>,
  \<^verbatim>\<open>os.Remove\<close>, \<^verbatim>\<open>os.Rename\<close> and \<^verbatim>\<open>ioutil.ReadFile\<close>. The file system is a
  table from paths to file contents, together with a script of the outcomes the
  operating system is going to give to the next state-changing calls: every such call
  takes the head of the script; \<open>Fails\<close> makes the call return an error other than
  "does not exist", and an exhausted script lets every further call through. Probing
  and reading (\<^verbatim>\<open>os.Stat\<close>, \<^verbatim>\<open>ioutil.ReadFile\<close>) succeed exactly when the file is there.
\<close>

type_synonym path = string

datatype os_error = ENOENT | EOTHER nat

datatype outcome = Succeeds | Fails nat nat
  \<comment> \<open>\<open>Fails errno n\<close>: the call fails with \<open>errno\<close>; a failing write has put \<open>n\<close> bytes down\<close>

record world =
  files :: "path \<rightharpoonup> string"
  script :: "outcome list"

datatype error =
    permissionDeniedError string
  | PathError os_error
  | errorString string

definition pending :: "world \<Rightarrow> outcome" where
  "pending w = (case script w of [] \<Rightarrow> Succeeds | x # xs \<Rightarrow> x)"

definition advance :: "world \<Rightarrow> world" where
  "advance w = w\<lparr>script := tl (script w)\<rparr>"

definition os_Stat :: "path \<Rightarrow> world \<Rightarrow> error option" where
  "os_Stat p w = (case files w p of None \<Rightarrow> Some (PathError ENOENT) | Some _ \<Rightarrow> None)"

definition ioutil_ReadFile :: "path \<Rightarrow> world \<Rightarrow> error + string" where
  "ioutil_ReadFile p w =
     (case files w p of None \<Rightarrow> Inl (PathError ENOENT) | Some bytes \<Rightarrow> Inr bytes)"

definition os_Create :: "path \<Rightarrow> world \<Rightarrow> error option \<times> world" where
  "os_Create p w =
     (case pending w of
        Fails e n \<Rightarrow> (Some (PathError (EOTHER e)), advance w)
      | Succeeds \<Rightarrow> (None, (advance w)\<lparr>files := (files w)(p \<mapsto> [])\<rparr>))"

definition contents :: "world \<Rightarrow> path \<Rightarrow> string" where
  "contents w p = (case files w p of None \<Rightarrow> [] | Some bytes \<Rightarrow> bytes)"

definition File_WriteString :: "path \<Rightarrow> string \<Rightarrow> world \<Rightarrow> error option \<times> world" where
  "File_WriteString p s w =
     (case pending w of
        Fails e n \<Rightarrow>
          (Some (PathError (EOTHER e)),
           (advance w)\<lparr>files := (files w)(p \<mapsto> contents w p @ take n s)\<rparr>)
      | Succeeds \<Rightarrow> (None, (advance w)\<lparr>files := (files w)(p \<mapsto> contents w p @ s)\<rparr>))"

definition File_Close :: "path \<Rightarrow> world \<Rightarrow> error option \<times> world" where
  "File_Close p w =
     (case pending w of
        Fails e n \<Rightarrow> (Some (PathError (EOTHER e)), advance w)
      | Succeeds \<Rightarrow> (None, advance w))"

definition os_Remove :: "path \<Rightarrow> world \<Rightarrow> error option \<times> world" where
  "os_Remove p w =
     (case pending w of
        Fails e n \<Rightarrow> (Some (PathError (EOTHER e)), advance w)
      | Succeeds \<Rightarrow>
          (case files w p of
             None \<Rightarrow> (Some (PathError ENOENT), advance w)
           | Some _ \<Rightarrow> (None, (advance w)\<lparr>files := (files w)(p := None)\<rparr>)))"

definition os_Rename :: "path \<Rightarrow> path \<Rightarrow> world \<Rightarrow> error option \<times> world" where
  "os_Rename src dst w =
     (case pending w of
        Fails e n \<Rightarrow> (Some (PathError (EOTHER e)), advance w)
      | Succeeds \<Rightarrow>
          (case files w src of
             None \<Rightarrow> (Some (PathError ENOENT), advance w)
           | Some bytes \<Rightarrow>
               (None, (advance w)\<lparr>files := ((files w)(src := None))(dst \<mapsto> bytes)\<rparr>)))"

definition os_IsNotExist :: "error option \<Rightarrow> bool" where
  "os_IsNotExist err = (err = Some (PathError ENOENT))"


section \<open>Package ownedfile\<close>

definition IsPermissionDenied :: "error option \<Rightarrow> bool" where
  "IsPermissionDenied err =
     (case err of Some (permissionDeniedError f) \<Rightarrow> True | _ \<Rightarrow> False)"

definition getOwnerPath :: "string \<Rightarrow> string" where
  "getOwnerPath file = file @ ''.owner''"

definition unsafeReadOwner :: "string \<Rightarrow> world \<Rightarrow> error + string" where
  "unsafeReadOwner file w =
     (case ioutil_ReadFile (getOwnerPath file) w of
        Inl err \<Rightarrow> Inl err
      | Inr ownerUserBytes \<Rightarrow> Inr ownerUserBytes)"

definition unsafeCreateOwner :: "string \<Rightarrow> string \<Rightarrow> world \<Rightarrow> error option \<times> world" where
  "unsafeCreateOwner file owner w =
     (let ownerPath = getOwnerPath file in
      case os_Stat ownerPath w of
        None \<Rightarrow> (Some (permissionDeniedError file), w)
      | Some _ \<Rightarrow>
          (case os_Create ownerPath w of
             (Some err, w1) \<Rightarrow> (Some err, w1)
           | (None, w1) \<Rightarrow>
               (case File_WriteString ownerPath owner w1 of
                  (Some err, w2) \<Rightarrow>
                    (let w3 = snd (File_Close ownerPath w2);
                         w4 = snd (os_Remove ownerPath w3)
                     in (Some err, w4))
                | (None, w2) \<Rightarrow>
                    (case File_Close ownerPath w2 of
                       (Some err, w3) \<Rightarrow> (Some err, snd (os_Remove ownerPath w3))
                     | (None, w3) \<Rightarrow> (None, w3)))))"

definition unsafeCheckOwner :: "string \<Rightarrow> string \<Rightarrow> world \<Rightarrow> error option" where
  "unsafeCheckOwner file owner w =
     (case unsafeReadOwner file w of
        Inl err \<Rightarrow> Some err
      | Inr fileOwner \<Rightarrow>
          if fileOwner \<noteq> owner then Some (permissionDeniedError file) else None)"

text \<open>
  The methods of \<^verbatim>\<open>Collection\<close> hold the collection's mutex from entry to return, so
  each of them is one atomic step on the world.
\<close>

definition Create :: "string \<Rightarrow> string \<Rightarrow> world \<Rightarrow> error option \<times> world" where
  "Create path owner w = unsafeCreateOwner path owner w"

definition Move :: "string \<Rightarrow> string \<Rightarrow> string \<Rightarrow> world \<Rightarrow> error option \<times> world" where
  "Move src path owner w =
     (case unsafeCheckOwner path owner w of
        Some err \<Rightarrow> (Some err, w)
      | None \<Rightarrow> os_Rename src path w)"

definition Delete :: "string \<Rightarrow> string \<Rightarrow> world \<Rightarrow> error option \<times> world" where
  "Delete path owner w =
     (case unsafeCheckOwner path owner w of
        Some err \<Rightarrow> (Some err, w)
      | None \<Rightarrow>
          (case os_Remove path w of
             (err, w1) \<Rightarrow>
               if err \<noteq> None \<and> \<not> os_IsNotExist err then (err, w1)
               else os_Remove (getOwnerPath path) w1))"

definition ReadOwner :: "string \<Rightarrow> world \<Rightarrow> error + string" where
  "ReadOwner path w = unsafeReadOwner path w"


subsection \<open>Histories of calls to a collection\<close>

text \<open>
  \<open>outcome_at w k\<close> is the outcome the operating system gives to the \<open>k\<close>-th
  state-changing call from now on. A history is a list of calls to the four methods; it
  is run from left to right and the result of every call is recorded.
\<close>

definition outcome_at :: "world \<Rightarrow> nat \<Rightarrow> outcome" where
  "outcome_at w k = (case drop k (script w) of [] \<Rightarrow> Succeeds | x # xs \<Rightarrow> x)"







section \<open>Package workqueue\<close>

text \<open>
  A Go channel with a buffer: \<open>buffer\<close> holds the values sent and not yet received,
  oldest first, and \<open>sendq\<close> the values of the senders that are suspended in a blocking
  send on the full channel, in the order they arrived. A receive takes the oldest
  buffered value; if a sender is suspended, its value moves into the freed slot and the
  sender resumes, which is its removal from \<open>sendq\<close>.
\<close>

record 'a chan =
  capacity :: nat
  buffer :: "'a list"
  sendq :: "'a list"

datatype send_status = Sent | Suspended

definition make_chan :: "nat \<Rightarrow> 'a chan" where
  "make_chan n = \<lparr>capacity = n, buffer = [], sendq = []\<rparr>"

definition chan_send :: "'a chan \<Rightarrow> 'a \<Rightarrow> send_status \<times> 'a chan" where
  "chan_send c x =
     (if length (buffer c) < capacity c then (Sent, c\<lparr>buffer := buffer c @ [x]\<rparr>)
      else (Suspended, c\<lparr>sendq := sendq c @ [x]\<rparr>))"

definition chan_send_default :: "'a chan \<Rightarrow> 'a \<Rightarrow> bool \<times> 'a chan" where
  "chan_send_default c x =
     (if length (buffer c) < capacity c then (True, c\<lparr>buffer := buffer c @ [x]\<rparr>)
      else (False, c))"

definition chan_recv :: "'a chan \<Rightarrow> ('a \<times> 'a chan) option" where
  "chan_recv c =
     (case buffer c of
        [] \<Rightarrow> (case sendq c of [] \<Rightarrow> None | s # ss \<Rightarrow> Some (s, c\<lparr>sendq := ss\<rparr>))
      | x # xs \<Rightarrow>
          (case sendq c of
             [] \<Rightarrow> Some (x, c\<lparr>buffer := xs\<rparr>)
           | s # ss \<Rightarrow> Some (x, c\<lparr>buffer := xs @ [s], sendq := ss\<rparr>)))"

record 'w WorkQueue =
  work :: "'w chan"
  stop :: "int chan"
  workers :: nat

definition AddBlocking :: "'w WorkQueue \<Rightarrow> 'w \<Rightarrow> send_status \<times> 'w WorkQueue" where
  "AddBlocking self item =
     (case chan_send (work self) item of (status, c) \<Rightarrow> (status, self\<lparr>work := c\<rparr>))"

definition AddIfSpace :: "'w WorkQueue \<Rightarrow> 'w \<Rightarrow> bool \<times> 'w WorkQueue" where
  "AddIfSpace self item =
     (case chan_send_default (work self) item of (ok, c) \<Rightarrow> (ok, self\<lparr>work := c\<rparr>))"

definition Cancel :: "'w WorkQueue \<Rightarrow> send_status \<times> 'w WorkQueue" where
  "Cancel self = (case chan_send (stop self) 1 of (status, c) \<Rightarrow> (status, self\<lparr>stop := c\<rparr>))"

text \<open>
  One turn of the loop of \<^verbatim>\<open>worker\<close>: the worker draws a work item, which it then runs
  to completion, or the stop signal, on which it returns, or it finds neither and
  waits. With both at hand the \<^verbatim>\<open>select\<close> may take either; \<open>prefer_stop\<close> is its choice.
\<close>

datatype 'w worker_turn = Runs 'w | Stops | Waits

definition worker :: "bool \<Rightarrow> 'w WorkQueue \<Rightarrow> 'w worker_turn \<times> 'w WorkQueue" where
  "worker prefer_stop workQueue =
     (case (chan_recv (work workQueue), chan_recv (stop workQueue)) of
        (None, None) \<Rightarrow> (Waits, workQueue)
      | (Some (item, c), None) \<Rightarrow> (Runs item, workQueue\<lparr>work := c\<rparr>)
      | (None, Some (sig, c)) \<Rightarrow>
          (Stops, workQueue\<lparr>stop := c, workers := workers workQueue - 1\<rparr>)
      | (Some (item, c), Some (sig, c')) \<Rightarrow>
          if prefer_stop then (Stops, workQueue\<lparr>stop := c', workers := workers workQueue - 1\<rparr>)
          else (Runs item, workQueue\<lparr>work := c\<rparr>))"

definition New :: "int \<Rightarrow> 'w WorkQueue" where
  "New workerCount = \<lparr>work = make_chan 1024, stop = make_chan 0, workers = nat workerCount\<rparr>"

text \<open>Calls of \<open>AddIfSpace\<close> in a row, with no turn of a worker in between.\<close>

fun add_all :: "'w WorkQueue \<Rightarrow> 'w list \<Rightarrow> bool list \<times> 'w WorkQueue" where
  "add_all q [] = ([], q)"
| "add_all q (x # xs) =
     (case AddIfSpace q x of
        (ok, q') \<Rightarrow> (case add_all q' xs of (oks, q'') \<Rightarrow> (ok # oks, q'')))"


section \<open>Strings and paths of the Go library\<close>

text \<open>
  Modelled from the Go standard library, which the program calls: \<^verbatim>\<open>strings.HasPrefix\<close>,
  \<^verbatim>\<open>strings.HasSuffix\<close>, \<^verbatim>\<open>strings.TrimSuffix\<close>, \<^verbatim>\<open>strings.Split\<close> (with the separator
  \<^verbatim>\<open>"/"\<close>), \<^verbatim>\<open>path.Clean\<close>, \<^verbatim>\<open>path.Join\<close> and the URL-safe base-64 encoding.
\<close>

definition HasPrefix :: "string \<Rightarrow> string \<Rightarrow> bool" where
  "HasPrefix s pre = (length s \<ge> length pre \<and> take (length pre) s = pre)"

definition HasSuffix :: "string \<Rightarrow> string \<Rightarrow> bool" where
  "HasSuffix s suf = (length s \<ge> length suf \<and> drop (length s - length suf) s = suf)"

definition TrimSuffix :: "string \<Rightarrow> string \<Rightarrow> string" where
  "TrimSuffix s suf = (if HasSuffix s suf then take (length s - length suf) s else s)"

fun Split :: "string \<Rightarrow> char \<Rightarrow> string list" where
  "Split [] sep = [[]]"
| "Split (c # cs) sep =
     (if c = sep then [] # Split cs sep
      else (case Split cs sep of [] \<Rightarrow> [[c]] | p # ps \<Rightarrow> (c # p) # ps))"

fun join_with :: "char \<Rightarrow> string list \<Rightarrow> string" where
  "join_with sep [] = []"
| "join_with sep [x] = x"
| "join_with sep (x # y # ys) = x @ sep # join_with sep (y # ys)"

text \<open>
  \<open>Clean\<close> goes through the elements of the path between slashes, keeping a stack of
  the elements of the result (the last one first): empty elements and \<open>.\<close> are
  dropped, \<open>..\<close> takes the element before it away, is dropped at the root and is kept
  at the start of a path that is not rooted.
\<close>

definition clean_step :: "bool \<Rightarrow> string list \<Rightarrow> string \<Rightarrow> string list" where
  "clean_step rooted stack elem =
     (if elem = [] \<or> elem = ''.'' then stack
      else if elem = ''..'' then
        (case stack of
           [] \<Rightarrow> if rooted then [] else [''..'']
         | e # below \<Rightarrow> if e = ''..'' then ''..'' # e # below else below)
      else elem # stack)"

definition Clean :: "string \<Rightarrow> string" where
  "Clean p =
     (if p = [] then ''.''
      else
        (let rooted = (hd p = CHR ''/'');
             out = join_with (CHR ''/'') (rev (foldl (clean_step rooted) [] (Split p (CHR ''/''))))
         in if rooted then CHR ''/'' # out else if out = [] then ''.'' else out))"

definition Join :: "string list \<Rightarrow> string" where
  "Join elem =
     (case filter (\<lambda>e. e \<noteq> []) elem of
        [] \<Rightarrow> []
      | e # es \<Rightarrow> Clean (join_with (CHR ''/'') (e # es)))"

definition encodeURL :: string where
  "encodeURL = ''ABCDEFGHIJKLMNOPQRSTUVWXYZabcdefghijklmnopqrstuvwxyz0123456789-_''"

fun EncodeToString :: "string \<Rightarrow> string" where
  "EncodeToString (a # b # c # rest) =
     (let n = of_char a * 65536 + of_char b * 256 + of_char c :: nat
      in [encodeURL ! (n div 262144), encodeURL ! (n div 4096 mod 64),
          encodeURL ! (n div 64 mod 64), encodeURL ! (n mod 64)] @ EncodeToString rest)"
| "EncodeToString [a, b] =
     (let n = of_char a * 65536 + of_char b * 256 :: nat
      in [encodeURL ! (n div 262144), encodeURL ! (n div 4096 mod 64),
          encodeURL ! (n div 64 mod 64), CHR ''=''])"
| "EncodeToString [a] =
     (let n = of_char a * 65536 :: nat
      in [encodeURL ! (n div 262144), encodeURL ! (n div 4096 mod 64), CHR ''='', CHR ''=''])"
| "EncodeToString [] = []"


section \<open>Package transcode\<close>

text \<open>
  The functions of package \<^verbatim>\<open>transcode\<close> run the external programs \<^verbatim>\<open>exiftool\<close>,
  \<^verbatim>\<open>avprobe\<close> and \<^verbatim>\<open>avconv\<close>. What these programs answer is not in the hands of the
  program; a record of type \<open>tools\<close> gives, for the file system as it is and the
  arguments of the call, the result of each function: a rotation or a duration (a
  \<^verbatim>\<open>float64\<close>, taken as a real number here), or for the two that write a file the error
  if any and the bytes left at the destination if any. Every call is recorded.
\<close>

datatype Quality = QualityLow | QualityHigh

record Options =
  CompensateRotation :: int
  Quality :: Quality
  ExtraArgs :: "string list"

record tools =
  exiftool_rotation :: "world \<Rightarrow> string \<Rightarrow> error + int"
  avprobe_duration :: "world \<Rightarrow> string \<Rightarrow> error + real"
  avconv_transcode :: "world \<Rightarrow> string \<Rightarrow> string \<Rightarrow> Options \<Rightarrow> error option \<times> string option"
  avconv_thumbnail ::
    "world \<Rightarrow> string \<Rightarrow> string \<Rightarrow> real \<Rightarrow> Options \<Rightarrow> error option \<times> string option"

datatype tool_call =
    CallExtractRotation string
  | CallExtractDuration string
  | CallTranscodeMP4 string string Options
  | CallGenerateThumbnail string string real Options


section \<open>Package main\<close>

record videoToTranscode =
  dlPath :: string
  srcPath :: string
  dstPath :: string
  servePath :: string
  url :: string
  thumbDstPath :: string
  thumbServePath :: string
  thumbUrl :: string
  deleteUrl :: string
  owner :: string
  rotation :: int

text \<open>
  The two closures that the program hands to its work queues: \<^verbatim>\<open>processVideoFast(video)\<close>
  and \<^verbatim>\<open>processVideoSlow(video)\<close>.
\<close>

datatype Work = WorkFast videoToTranscode | WorkSlow videoToTranscode

datatype log_line =
    Message string
  | MessageError string error
  | Failed string string error
  | Succeeded string string

record config =
  tempBase :: string
  serveBase :: string
  storageUri :: string
  apiUri :: string

record state =
  fs :: world
  fastProcessQueue :: "Work WorkQueue"
  slowProcessQueue :: "Work WorkQueue"
  logs :: "log_line list"
  calls :: "tool_call list"

definition log_Printf :: "log_line \<Rightarrow> state \<Rightarrow> state" where
  "log_Printf line st = st\<lparr>logs := logs st @ [line]\<rparr>"

definition on_fs :: "(world \<Rightarrow> 'r \<times> world) \<Rightarrow> state \<Rightarrow> 'r \<times> state" where
  "on_fs f st = (case f (fs st) of (r, w) \<Rightarrow> (r, st\<lparr>fs := w\<rparr>))"

definition put_output :: "string \<Rightarrow> string option \<Rightarrow> world \<Rightarrow> world" where
  "put_output dst out w =
     (case out of None \<Rightarrow> w | Some bytes \<Rightarrow> w\<lparr>files := (files w)(dst \<mapsto> bytes)\<rparr>)"

definition ExtractRotation :: "tools \<Rightarrow> string \<Rightarrow> state \<Rightarrow> (error + int) \<times> state" where
  "ExtractRotation env videoPath st =
     (exiftool_rotation env (fs st) videoPath,
      st\<lparr>calls := calls st @ [CallExtractRotation videoPath]\<rparr>)"

definition ExtractDuration :: "tools \<Rightarrow> string \<Rightarrow> state \<Rightarrow> (error + real) \<times> state" where
  "ExtractDuration env videoPath st =
     (avprobe_duration env (fs st) videoPath,
      st\<lparr>calls := calls st @ [CallExtractDuration videoPath]\<rparr>)"

definition TranscodeMP4 ::
  "tools \<Rightarrow> string \<Rightarrow> string \<Rightarrow> Options \<Rightarrow> state \<Rightarrow> error option \<times> state" where
  "TranscodeMP4 env src dst options st =
     (case avconv_transcode env (fs st) src dst options of
        (err, out) \<Rightarrow>
          (err, st\<lparr>fs := put_output dst out (fs st),
                   calls := calls st @ [CallTranscodeMP4 src dst options]\<rparr>))"

definition GenerateThumbnail ::
  "tools \<Rightarrow> string \<Rightarrow> string \<Rightarrow> real \<Rightarrow> Options \<Rightarrow> state \<Rightarrow> error option \<times> state" where
  "GenerateThumbnail env src dst time options st =
     (case avconv_thumbnail env (fs st) src dst time options of
        (err, out) \<Rightarrow>
          (err, st\<lparr>fs := put_output dst out (fs st),
                   calls := calls st @ [CallGenerateThumbnail src dst time options]\<rparr>))"

definition logError :: "error option \<Rightarrow> string \<Rightarrow> string \<Rightarrow> state \<Rightarrow> state" where
  "logError err context action st =
     (case err of
        Some e \<Rightarrow> log_Printf (Failed context action e) st
      | None \<Rightarrow> log_Printf (Succeeded context action) st)"

definition generateToken :: "error + string \<Rightarrow> error + string" where
  "generateToken rand_Read =
     (case rand_Read of
        Inl err \<Rightarrow> Inl err
      | Inr bytes \<Rightarrow> Inr (''video-'' @ EncodeToString bytes))"

definition generateThumbnail ::
  "tools \<Rightarrow> videoToTranscode \<Rightarrow> real \<Rightarrow> state \<Rightarrow> error option \<times> state" where
  "generateThumbnail env video relativeTime st =
     (case ExtractDuration env (srcPath video) st of
        (Inl err, st1) \<Rightarrow> (Some err, st1)
      | (Inr duration, st1) \<Rightarrow>
          (let time = duration * relativeTime;
               options = \<lparr>CompensateRotation = rotation video, Quality = QualityHigh,
                          ExtraArgs = []\<rparr>
           in case GenerateThumbnail env (srcPath video) (thumbDstPath video) time options st1 of
                (Some err, st2) \<Rightarrow> (Some err, st2)
              | (None, st2) \<Rightarrow>
                  (case on_fs (Move (thumbDstPath video) (thumbServePath video) (owner video)) st2 of
                     (Some err, st3) \<Rightarrow>
                       (Some err, snd (on_fs (os_Remove (thumbDstPath video)) st3))
                   | (None, st3) \<Rightarrow> (None, st3))))"

definition transcodeVideo ::
  "tools \<Rightarrow> videoToTranscode \<Rightarrow> Quality \<Rightarrow> state \<Rightarrow> error option \<times> state" where
  "transcodeVideo env video quality st =
     (let options = \<lparr>CompensateRotation = rotation video, Quality = quality, ExtraArgs = []\<rparr>
      in case TranscodeMP4 env (srcPath video) (dstPath video) options st of
           (Some err, st1) \<Rightarrow> (Some err, st1)
         | (None, st1) \<Rightarrow>
             (case on_fs (Move (dstPath video) (servePath video) (owner video)) st1 of
                (Some err, st2) \<Rightarrow> (Some err, snd (on_fs (os_Remove (dstPath video)) st2))
              | (None, st2) \<Rightarrow> (None, st2)))"

text \<open>
  \<open>processVideoFast\<close> changes the rotation of the video it is given, which the closure
  for the slow queue shares; the video as it is at the end is returned with the state.
  The blocking send to the slow queue is its last statement: a suspended send leaves
  the item with the suspended senders of that queue.
\<close>

definition processVideoFast :: "tools \<Rightarrow> videoToTranscode \<Rightarrow> state \<Rightarrow> videoToTranscode \<times> state" where
  "processVideoFast env video st =
     (case ExtractRotation env (srcPath video) st of
        (r, st1) \<Rightarrow>
          (let err = (case r of Inl e \<Rightarrow> Some e | Inr _ \<Rightarrow> None);
               st2 = logError err (srcPath video) ''Extract rotation'' st1;
               video1 = (case r of Inl e \<Rightarrow> video | Inr rot \<Rightarrow> video\<lparr>rotation := rot\<rparr>)
           in case generateThumbnail env video1 0.3 st2 of
                (err, st3) \<Rightarrow>
                  (let st4 = logError err (srcPath video1) ''Generate thumbnail'' st3
                   in case transcodeVideo env video1 QualityLow st4 of
                        (err, st5) \<Rightarrow>
                          (let st6 = logError err (srcPath video1) ''Transcode low-quality'' st5
                           in case AddBlocking (slowProcessQueue st6) (WorkSlow video1) of
                                (status, q) \<Rightarrow> (video1, st6\<lparr>slowProcessQueue := q\<rparr>)))))"

definition processVideoSlow :: "tools \<Rightarrow> videoToTranscode \<Rightarrow> state \<Rightarrow> state" where
  "processVideoSlow env video st =
     (case transcodeVideo env video QualityHigh st of
        (err, st1) \<Rightarrow>
          (let st2 = logError err (srcPath video) ''Transcode high-quality'' st1
           in case on_fs (os_Remove (srcPath video)) st2 of
                (err, st3) \<Rightarrow> logError err (srcPath video) ''Delete source file'' st3))"

definition run_Work :: "tools \<Rightarrow> Work \<Rightarrow> state \<Rightarrow> state" where
  "run_Work env item st =
     (case item of
        WorkFast video \<Rightarrow> snd (processVideoFast env video st)
      | WorkSlow video \<Rightarrow> processVideoSlow env video st)"

definition createVideoToTranscode ::
  "config \<Rightarrow> string \<Rightarrow> string \<Rightarrow> string \<Rightarrow> string \<Rightarrow> videoToTranscode" where
  "createVideoToTranscode cfg token serveVideoPath serveThumbPath user =
     \<lparr>dlPath = Join [tempBase cfg, token @ ''.dl.mp4''],
      srcPath = Join [tempBase cfg, token @ ''.src.mp4''],
      dstPath = Join [tempBase cfg, token @ ''.dst.mp4''],
      servePath = serveVideoPath,
      url = storageUri cfg @ ''/'' @ token @ ''.mp4'',
      thumbDstPath = Join [tempBase cfg, token @ ''.jpg''],
      thumbServePath = serveThumbPath,
      thumbUrl = storageUri cfg @ ''/'' @ token @ ''.jpg'',
      deleteUrl = apiUri cfg @ ''/uploads/'' @ token,
      owner = user,
      rotation = 0\<rparr>"


subsection \<open>The upload handler\<close>

text \<open>
  What the handler reads of a request: the content type, the parts of a multipart body
  (or the error of \<^verbatim>\<open>MultipartReader\<close>), each with the bytes that can be read from it and
  the error that ends the reading if any, the raw body likewise, the \<^verbatim>\<open>redirect_to\<close>
  parameter with the error of \<^verbatim>\<open>url.Parse\<close> on it if any, and the error of writing the
  JSON answer if any.
\<close>

record Part =
  FormName :: string
  FileName :: string
  part_Content_Type :: string
  part_bytes :: string
  part_error :: "error option"

datatype part_event = NextPart Part | NextPartError error

record Request =
  Content_Type :: string
  MultipartReader :: "error + part_event list"
  Body :: string
  Body_error :: "error option"
  redirect_to :: string
  redirect_to_error :: "error option"
  Encode_error :: "error option"

datatype reply =
    NoReply
  | Redirect string "(string \<times> string) list"
  | Json string string string string

abbreviation StatusOK :: int where "StatusOK \<equiv> 200"
abbreviation StatusFound :: int where "StatusFound \<equiv> 302"
abbreviation StatusBadRequest :: int where "StatusBadRequest \<equiv> 400"
abbreviation StatusInternalServerError :: int where "StatusInternalServerError \<equiv> 500"
abbreviation StatusServiceUnavailable :: int where "StatusServiceUnavailable \<equiv> 503"

text \<open>
  \<^verbatim>\<open>io.Copy\<close> to the file at \<open>dst\<close>: the bytes read are written to the file, and the
  error of the write, or else the error that ended the reading, is returned.
\<close>

definition io_Copy :: "path \<Rightarrow> string \<Rightarrow> error option \<Rightarrow> world \<Rightarrow> error option \<times> world" where
  "io_Copy dst bytes read_error w =
     (if bytes = [] then (read_error, w)
      else (case File_WriteString dst bytes w of
              (Some err, w') \<Rightarrow> (Some err, w')
            | (None, w') \<Rightarrow> (read_error, w')))"

text \<open>
  The loop that reserves a fresh name, \<^verbatim>\<open>for try := 0; try < 10; try++\<close>. \<open>rand_Read k\<close>
  is what \<^verbatim>\<open>rand.Read\<close> gives in round \<open>k\<close>.
\<close>

function uploadHandler_reserve ::
  "config \<Rightarrow> string \<Rightarrow> (nat \<Rightarrow> error + string) \<Rightarrow> nat \<Rightarrow> state \<Rightarrow>
   ((int \<times> error) + videoToTranscode option) \<times> state" where
  "uploadHandler_reserve cfg user rand_Read try st =
     (if try < 10 then
        (case generateToken (rand_Read try) of
           Inl err \<Rightarrow> (Inl (StatusInternalServerError, err), st)
         | Inr token \<Rightarrow>
             (let serveVideoPath = Join [serveBase cfg, token @ ''.mp4''];
                  serveThumbPath = Join [serveBase cfg, token @ ''.jpg'']
              in case on_fs (Create serveVideoPath user) st of
                   (Some err, st1) \<Rightarrow>
                     uploadHandler_reserve cfg user rand_Read (try + 1)
                       (log_Printf (MessageError ''Failed to create video: '' err) st1)
                 | (None, st1) \<Rightarrow>
                     (case on_fs (Create serveThumbPath user) st1 of
                        (Some err, st2) \<Rightarrow>
                          (let st3 = log_Printf (MessageError ''Failed to create thumbnail: '' err) st2
                           in case on_fs (Delete serveVideoPath user) st3 of
                                (Some err', st4) \<Rightarrow>
                                  uploadHandler_reserve cfg user rand_Read (try + 1)
                                    (log_Printf (MessageError ''Failed to remove video: '' err') st4)
                              | (None, st4) \<Rightarrow>
                                  uploadHandler_reserve cfg user rand_Read (try + 1) st4)
                      | (None, st2) \<Rightarrow>
                          (Inr (Some (createVideoToTranscode cfg token serveVideoPath
                                  serveThumbPath user)), st2))))
      else (Inr None, st))"
  by pat_completeness auto
termination
  by (relation "measure (\<lambda>(cfg, user, rand_Read, try, st). 10 - try)") auto

text \<open>The loop over the parts of a multipart body; the end of the list is \<^verbatim>\<open>io.EOF\<close>.\<close>

fun uploadHandler_parts ::
  "videoToTranscode \<Rightarrow> part_event list \<Rightarrow> string \<Rightarrow> bool \<Rightarrow> state \<Rightarrow>
   ((int \<times> error) + string \<times> bool) \<times> state" where
  "uploadHandler_parts video [] title didDownload st = (Inr (title, didDownload), st)"
| "uploadHandler_parts video (NextPartError err # rest) title didDownload st =
     (Inl (StatusBadRequest, err), st)"
| "uploadHandler_parts video (NextPart part # rest) title didDownload st =
     (if FormName part = ''video'' then
        (let st1 = log_Printf (Message (srcPath video @ '': Downloading '' @ FormName part @ ''=''
                     @ FileName part @ '' ('' @ part_Content_Type part @ '')'')) st
         in case on_fs (io_Copy (dlPath video) (part_bytes part) (part_error part)) st1 of
              (Some err, st2) \<Rightarrow> (Inl (StatusInternalServerError, err), st2)
            | (None, st2) \<Rightarrow> uploadHandler_parts video rest (FileName part) True st2)
      else uploadHandler_parts video rest title didDownload st)"

definition uploadHandler_download ::
  "Request \<Rightarrow> videoToTranscode \<Rightarrow> state \<Rightarrow> ((int \<times> error) + string) \<times> state" where
  "uploadHandler_download r video st =
     (let contentType = Content_Type r in
      if HasPrefix contentType ''multipart/'' then
        (let st1 = log_Printf (Message (srcPath video @ '': Found multipart data'')) st
         in case MultipartReader r of
              Inl err \<Rightarrow> (Inl (StatusBadRequest, err), st1)
            | Inr reader \<Rightarrow>
                (case uploadHandler_parts video reader [] False st1 of
                   (Inl failure, st2) \<Rightarrow> (Inl failure, st2)
                 | (Inr (title, didDownload), st2) \<Rightarrow>
                     if \<not> didDownload then
                       (Inl (StatusInternalServerError,
                          errorString (CHR 0x27 # ''video'' @ CHR 0x27
                            # '' not found in multipart data'')), st2)
                     else (Inr title, st2)))
      else
        (let st1 = log_Printf (Message (srcPath video @ '': Downloading raw body data: ''
                     @ contentType)) st
         in case on_fs (io_Copy (dlPath video) (Body r) (Body_error r)) st1 of
              (Some err, st2) \<Rightarrow> (Inl (StatusInternalServerError, err), st2)
            | (None, st2) \<Rightarrow> (Inr [], st2)))"

text \<open>
  From the rename of the downloaded file on: the commit of the source file, the
  submission to the fast queue, and either the rollback or the answer.
\<close>

definition uploadHandler_process ::
  "Request \<Rightarrow> string \<Rightarrow> videoToTranscode \<Rightarrow> string \<Rightarrow> state \<Rightarrow>
   (int \<times> error option \<times> reply) \<times> state" where
  "uploadHandler_process r user video title st =
     (let st1 = log_Printf (Message (srcPath video @ '': Downloaded video data'')) st
      in case on_fs (os_Rename (dlPath video) (srcPath video)) st1 of
           (Some err, st2) \<Rightarrow> ((StatusInternalServerError, Some err, NoReply), st2)
         | (None, st2) \<Rightarrow>
             (case AddIfSpace (fastProcessQueue st2) (WorkFast video) of
                (didAdd, q) \<Rightarrow>
                  (let st3 = st2\<lparr>fastProcessQueue := q\<rparr> in
                   if \<not> didAdd then
                     (let st4 = log_Printf (Message (srcPath video
                                  @ '': Process queue full: cancelling processsing'')) st3
                      in case on_fs (os_Remove (srcPath video)) st4 of
                           (err, st5) \<Rightarrow>
                             (let st6 = logError err (srcPath video) ''Delete source file'' st5
                              in case on_fs (Delete (servePath video) user) st6 of
                                   (err, st7) \<Rightarrow>
                                     (let st8 = logError err (srcPath video)
                                                  ''Delete serve video file'' st7
                                      in case on_fs (Delete (thumbServePath video) user) st8 of
                                           (err, st9) \<Rightarrow>
                                             ((StatusServiceUnavailable,
                                               Some (errorString ''Process queue full''), NoReply),
                                              logError err (srcPath video)
                                                ''Delete serve thumbnail file'' st9))))
                   else
                     (let redirect = redirect_to r in
                      if redirect \<noteq> [] then
                        (case redirect_to_error r of
                           Some err \<Rightarrow> ((StatusBadRequest, Some err, NoReply), st3)
                         | None \<Rightarrow>
                             ((StatusFound, None,
                               Redirect redirect
                                 ([(''video_url'', url video), (''thumb_url'', thumbUrl video),
                                   (''delete_url'', deleteUrl video)]
                                  @ (if title \<noteq> [] then [(''title'', title)] else []))),
                              st3))
                      else
                        ((StatusOK, None, Json (url video) (thumbUrl video) (deleteUrl video) title),
                         (case Encode_error r of
                            Some err \<Rightarrow> log_Printf (MessageError ''Failed to send response: '' err) st3
                          | None \<Rightarrow> st3))))))"

definition uploadHandler ::
  "config \<Rightarrow> Request \<Rightarrow> string \<Rightarrow> (nat \<Rightarrow> error + string) \<Rightarrow> state \<Rightarrow>
   (int \<times> error option \<times> reply) \<times> state" where
  "uploadHandler cfg r user rand_Read st =
     (case uploadHandler_reserve cfg user rand_Read 0 st of
        (Inl (status, err), st1) \<Rightarrow> ((status, Some err, NoReply), st1)
      | (Inr None, st1) \<Rightarrow>
          ((StatusInternalServerError, Some (errorString ''Could not create unique name''),
            NoReply), st1)
      | (Inr (Some video), st1) \<Rightarrow>
          (let st2 = log_Printf (Message (srcPath video @ '': Created owned file'')) st1
           in case on_fs (os_Create (dlPath video)) st2 of
                (Some err, st3) \<Rightarrow> ((StatusInternalServerError, Some err, NoReply), st3)
              | (None, st3) \<Rightarrow>
                  (case (case uploadHandler_download r video st3 of
                           (Inl (status, err), st4) \<Rightarrow> ((status, Some err, NoReply), st4)
                         | (Inr title, st4) \<Rightarrow> uploadHandler_process r user video title st4) of
                     (answer, st5) \<Rightarrow>
                       (answer, snd (on_fs (File_Close (dlPath video)) st5)))))"

subsection \<open>The recovery scan\<close>

record FileInfo =
  Name :: string
  IsDir :: bool

text \<open>
  The body of the loop of \<^verbatim>\<open>queuePendingVideosToTranscode\<close> for one entry of the
  directory, and the function itself, given what \<^verbatim>\<open>ioutil.ReadDir(tempBase)\<close> returned.
\<close>

definition queuePendingVideo :: "config \<Rightarrow> state \<Rightarrow> FileInfo \<Rightarrow> state" where
  "queuePendingVideo cfg st file =
     (if IsDir file then st
      else
        (let p = Name file in
         if \<not> HasSuffix p ''.src.mp4'' then st
         else
           (let st1 = log_Printf (Message (''Found unprocessed video '' @ p
                        @ '', preparing to transcode'')) st;
                parts = Split p (CHR ''/'')
            in if length parts = 0 then
                 log_Printf (Message (p @ '': Failed to extract token'')) st1
               else
                 (let token = TrimSuffix (parts ! (length parts - 1)) ''.src.mp4'';
                      serveVideoPath = Join [serveBase cfg, token @ ''.mp4''];
                      serveThumbPath = Join [serveBase cfg, token @ ''.jpg'']
                  in case ReadOwner serveVideoPath (fs st1) of
                       Inl err \<Rightarrow> log_Printf (Message (p @ '': Failed to read video owner'')) st1
                     | Inr videoOwner \<Rightarrow>
                         (case ReadOwner serveThumbPath (fs st1) of
                            Inl err \<Rightarrow>
                              log_Printf (Message (p @ '': Failed to read thumbnail owner'')) st1
                          | Inr thumbOwner \<Rightarrow>
                              if videoOwner \<noteq> thumbOwner then
                                log_Printf (Message (p @ '': Owner mismatch'')) st1
                              else
                                (let video = createVideoToTranscode cfg token serveVideoPath
                                               serveThumbPath videoOwner
                                 in case AddIfSpace (fastProcessQueue st1) (WorkFast video) of
                                      (didAdd, q) \<Rightarrow>
                                        (let st2 = st1\<lparr>fastProcessQueue := q\<rparr> in
                                         if \<not> didAdd then
                                           log_Printf (Message (srcPath video
                                             @ '': Process queue full: skipped'')) st2
                                         else
                                           log_Printf (Message (srcPath video
                                             @ '': Added to process queue'')) st2)))))))"

definition queuePendingVideosToTranscode ::
  "config \<Rightarrow> error + FileInfo list \<Rightarrow> state \<Rightarrow> state" where
  "queuePendingVideosToTranscode cfg ioutil_ReadDir st =
     (case ioutil_ReadDir of
        Inl err \<Rightarrow> log_Printf (MessageError ''Failed to search pending transcode work: '' err) st
      | Inr entries \<Rightarrow> foldl (queuePendingVideo cfg) st entries)"


subsection \<open>The recovery scan in the words of the specification\<close>

text \<open>
  The token of a leftover source file is its name without the suffix \<open>.src.mp4\<close>. A
  token has a pending owner when the owners of its serve video and of its serve
  thumbnail can both be read and are equal. \<open>resubmitted\<close> is what the scan is to submit
  for one entry of the listing, and \<open>skipReason\<close> what it is to log for a token
  without a pending owner. A plain name is the name of a file in a directory.
\<close>

definition pendingToken :: "string \<Rightarrow> string" where
  "pendingToken name = TrimSuffix name ''.src.mp4''"

definition pendingOwner :: "config \<Rightarrow> world \<Rightarrow> string \<Rightarrow> string option" where
  "pendingOwner cfg w token =
     (case ReadOwner (Join [serveBase cfg, token @ ''.mp4'']) w of
        Inl err \<Rightarrow> None
      | Inr videoOwner \<Rightarrow>
          (case ReadOwner (Join [serveBase cfg, token @ ''.jpg'']) w of
             Inl err \<Rightarrow> None
           | Inr thumbOwner \<Rightarrow> if videoOwner = thumbOwner then Some videoOwner else None))"

definition resubmitted :: "config \<Rightarrow> world \<Rightarrow> FileInfo \<Rightarrow> Work list" where
  "resubmitted cfg w file =
     (if \<not> IsDir file \<and> HasSuffix (Name file) ''.src.mp4'' then
        (let token = pendingToken (Name file) in
         case pendingOwner cfg w token of
           None \<Rightarrow> []
         | Some user \<Rightarrow>
             [WorkFast (createVideoToTranscode cfg token (Join [serveBase cfg, token @ ''.mp4''])
                (Join [serveBase cfg, token @ ''.jpg'']) user)])
      else [])"

definition skipReason :: "config \<Rightarrow> world \<Rightarrow> string \<Rightarrow> string" where
  "skipReason cfg w token =
     (case ReadOwner (Join [serveBase cfg, token @ ''.mp4'']) w of
        Inl err \<Rightarrow> '': Failed to read video owner''
      | Inr videoOwner \<Rightarrow>
          (case ReadOwner (Join [serveBase cfg, token @ ''.jpg'']) w of
             Inl err \<Rightarrow> '': Failed to read thumbnail owner''
           | Inr thumbOwner \<Rightarrow> '': Owner mismatch''))"

definition plain :: "string \<Rightarrow> bool" where
  "plain name = (name \<noteq> [] \<and> CHR ''/'' \<notin> set name \<and> name \<noteq> ''.'' \<and> name \<noteq> ''..'')"


subsection \<open>Reading the log and the script\<close>

text \<open>
  \<open>outcome_line err context action\<close> is the line that \<open>logError\<close> writes, and a
  world is \<open>quiet\<close> when the operating system fails none of the calls to come.
\<close>

definition outcome_line :: "error option \<Rightarrow> string \<Rightarrow> string \<Rightarrow> log_line" where
  "outcome_line err context action =
     (case err of Some e \<Rightarrow> Failed context action e | None \<Rightarrow> Succeeded context action)"

definition quiet :: "world \<Rightarrow> bool" where
  "quiet w = list_all (\<lambda>x. x = Succeeds) (script w)"


section \<open>Facts about the file system calls\<close>

lemma advance_simps [simp]:
  "files (advance w) = files w" "script (advance w) = tl (script w)"
  by (simp_all add: advance_def)

lemma pending_eq: "pending w = outcome_at w 0"
  by (simp add: pending_def outcome_at_def split: list.splits)

lemma outcome_at_advance [simp]: "outcome_at (advance w) k = outcome_at w (Suc k)"
  by (simp add: outcome_at_def advance_def drop_Suc)

lemma outcome_at_files_update [simp]: "outcome_at (w\<lparr>files := f\<rparr>) k = outcome_at w k"
  by (simp add: outcome_at_def)

lemma os_Create_files:
  "files (snd (os_Create p w)) =
     (if fst (os_Create p w) = None then (files w)(p \<mapsto> []) else files w)"
  by (simp add: os_Create_def split: outcome.splits)

lemma File_WriteString_frame:
  "x \<noteq> p \<Longrightarrow> files (snd (File_WriteString p s w)) x = files w x"
  by (simp add: File_WriteString_def split: outcome.splits)

lemma File_Close_files [simp]: "files (snd (File_Close p w)) = files w"
  by (simp add: File_Close_def split: outcome.splits)

lemma os_Remove_files:
  "files (snd (os_Remove p w)) =
     (if fst (os_Remove p w) = None then (files w)(p := None) else files w)"
  by (simp add: os_Remove_def split: outcome.splits option.splits)

lemma os_Rename_frame:
  "x \<noteq> src \<Longrightarrow> x \<noteq> dst \<Longrightarrow> files (snd (os_Rename src dst w)) x = files w x"
  by (simp add: os_Rename_def split: outcome.splits option.splits)

lemma getOwnerPath_neq [simp]: "getOwnerPath p \<noteq> p" "p \<noteq> getOwnerPath p"
  by (simp_all add: getOwnerPath_def)

lemma getOwnerPath_inj [simp]: "getOwnerPath p = getOwnerPath q \<longleftrightarrow> p = q"
  by (simp add: getOwnerPath_def)

lemma unsafeCheckOwner_cases:
  "unsafeCheckOwner p user w =
     (case files w (getOwnerPath p) of
        None \<Rightarrow> Some (PathError ENOENT)
      | Some fileOwner \<Rightarrow> if fileOwner = user then None else Some (permissionDeniedError p))"
  by (simp add: unsafeCheckOwner_def unsafeReadOwner_def ioutil_ReadFile_def split: option.splits)


section \<open>Publish authorization\<close>

lemma Move_cases:
  "Move src p user w =
     (case files w (getOwnerPath p) of
        None \<Rightarrow> (Some (PathError ENOENT), w)
      | Some fileOwner \<Rightarrow>
          if fileOwner = user then os_Rename src p w
          else (Some (permissionDeniedError p), w))"
  by (simp add: Move_def unsafeCheckOwner_def unsafeReadOwner_def ioutil_ReadFile_def
      split: option.splits)

lemma ReadOwner_cases:
  "ReadOwner p w =
     (case files w (getOwnerPath p) of
        None \<Rightarrow> Inl (PathError ENOENT)
      | Some fileOwner \<Rightarrow> Inr fileOwner)"
  by (simp add: ReadOwner_def unsafeReadOwner_def ioutil_ReadFile_def split: option.splits)

lemma os_Rename_succeeds:
  assumes "pending w = Succeeds" and "files w src = Some bytes"
  shows "fst (os_Rename src dst w) = None"
    and "files (snd (os_Rename src dst w)) = ((files w)(src := None))(dst \<mapsto> bytes)"
  using assms by (simp_all add: os_Rename_def)

text \<open>
  Claim C1, as the code has it. \<open>Move src p user\<close> goes on to the rename exactly when
  \<open>ReadOwner p\<close> returns \<open>user\<close>, and its result is then the result of the rename:
  success, with the bytes of \<open>src\<close> now at \<open>p\<close> and \<open>src\<close> gone, when \<open>src\<close> exists
  and the operating system lets the rename through. When \<open>ReadOwner p\<close> returns another
  owner, \<open>Move\<close> fails with the permission-denied error; when \<open>ReadOwner p\<close> fails,
  \<open>Move\<close> fails with that read error. In both cases the world is left as it was.
\<close>

theorem Move_authorization:
  "(ReadOwner p w = Inr user \<longrightarrow> Move src p user w = os_Rename src p w) \<and>
   (ReadOwner p w = Inr user \<and> files w src = Some bytes \<and> pending w = Succeeds \<longrightarrow>
      fst (Move src p user w) = None \<and>
      files (snd (Move src p user w)) = ((files w)(src := None))(p \<mapsto> bytes)) \<and>
   (\<forall>other. ReadOwner p w = Inr other \<and> other \<noteq> user \<longrightarrow>
      Move src p user w = (Some (permissionDeniedError p), w)) \<and>
   (\<forall>err. ReadOwner p w = Inl err \<longrightarrow> Move src p user w = (Some err, w)) \<and>
   (fst (Move src p user w) = None \<longrightarrow> ReadOwner p w = Inr user)"
proof (cases "files w (getOwnerPath p)")
  case None
  then show ?thesis by (simp add: Move_cases ReadOwner_cases)
next
  case (Some fileOwner)
  show ?thesis
  proof (cases "fileOwner = user")
    case True
    with Some have m: "Move src p user w = os_Rename src p w"
      and r: "ReadOwner p w = Inr user"
      by (simp_all add: Move_cases ReadOwner_cases)
    show ?thesis
      using os_Rename_succeeds [of w src bytes p] by (simp add: m r)
  next
    case False
    with Some show ?thesis by (simp add: Move_cases ReadOwner_cases)
  qed
qed

theorem Move_authorization_witness:
  "ReadOwner ''b'' \<lparr>files = [''b.owner'' \<mapsto> ''u'', ''a'' \<mapsto> ''data''], script = []\<rparr> = Inr ''u'' \<and>
   Move ''a'' ''b'' ''u'' \<lparr>files = [''b.owner'' \<mapsto> ''u'', ''a'' \<mapsto> ''data''], script = []\<rparr> =
     (None, \<lparr>files = [''b.owner'' \<mapsto> ''u'', ''a'' \<mapsto> ''data''](''a'' := None, ''b'' \<mapsto> ''data''),
             script = []\<rparr>) \<and>
   ReadOwner ''b'' \<lparr>files = [''b.owner'' \<mapsto> ''v''], script = []\<rparr> = Inr ''v'' \<and>
   Move ''a'' ''b'' ''u'' \<lparr>files = [''b.owner'' \<mapsto> ''v''], script = []\<rparr> =
     (Some (permissionDeniedError ''b''), \<lparr>files = [''b.owner'' \<mapsto> ''v''], script = []\<rparr>) \<and>
   ReadOwner ''b'' \<lparr>files = Map.empty, script = []\<rparr> = Inl (PathError ENOENT) \<and>
   Move ''a'' ''b'' ''u'' \<lparr>files = Map.empty, script = []\<rparr> =
     (Some (PathError ENOENT), \<lparr>files = Map.empty, script = []\<rparr>)"
proof -
  let ?w1 = "\<lparr>files = [''b.owner'' \<mapsto> ''u'', ''a'' \<mapsto> ''data''], script = []\<rparr>"
  let ?w2 = "\<lparr>files = [''b.owner'' \<mapsto> ''v''], script = []\<rparr>"
  let ?w3 = "\<lparr>files = Map.empty, script = []\<rparr>"
  have r1: "ReadOwner ''b'' ?w1 = Inr ''u''"
    and r2: "ReadOwner ''b'' ?w2 = Inr ''v''"
    and r3: "ReadOwner ''b'' ?w3 = Inl (PathError ENOENT)"
    by (simp_all add: ReadOwner_cases getOwnerPath_def)
  have m1: "Move ''a'' ''b'' ''u'' ?w1 = os_Rename ''a'' ''b'' ?w1"
    using Move_authorization [of "''b''" ?w1 "''u''" "''a''"] r1 by simp
  have m2: "Move ''a'' ''b'' ''u'' ?w2 = (Some (permissionDeniedError ''b''), ?w2)"
    using Move_authorization [of "''b''" ?w2 "''u''" "''a''"] r2 by simp
  have m3: "Move ''a'' ''b'' ''u'' ?w3 = (Some (PathError ENOENT), ?w3)"
    using Move_authorization [of "''b''" ?w3 "''u''" "''a''"] r3 by simp
  have "os_Rename ''a'' ''b'' ?w1 =
      (None, \<lparr>files = [''b.owner'' \<mapsto> ''u'', ''a'' \<mapsto> ''data''](''a'' := None, ''b'' \<mapsto> ''data''),
              script = []\<rparr>)"
    by (simp add: os_Rename_def pending_def advance_def)
  with m1 m2 m3 r1 r2 r3 show ?thesis by simp
qed

text \<open>
  The claim as worded fails twice. With no marker at \<open>b\<close>, \<open>ReadOwner\<close> does not return
  the owner and \<open>Move\<close> fails, but with the read error and not with the permission-denied
  error. With the marker naming the owner and no file at the source, \<open>ReadOwner\<close> returns
  exactly the owner and \<open>Move\<close> still fails.
\<close>

theorem Move_authorization_counterexample:
  "ReadOwner ''b'' \<lparr>files = Map.empty, script = []\<rparr> \<noteq> Inr ''u'' \<and>
   fst (Move ''a'' ''b'' ''u'' \<lparr>files = Map.empty, script = []\<rparr>) \<noteq> None \<and>
   \<not> IsPermissionDenied (fst (Move ''a'' ''b'' ''u'' \<lparr>files = Map.empty, script = []\<rparr>)) \<and>
   ReadOwner ''b'' \<lparr>files = [''b.owner'' \<mapsto> ''u''], script = []\<rparr> = Inr ''u'' \<and>
   fst (Move ''a'' ''b'' ''u'' \<lparr>files = [''b.owner'' \<mapsto> ''u''], script = []\<rparr>) =
     Some (PathError ENOENT)"
  by (simp add: Move_cases ReadOwner_cases getOwnerPath_def IsPermissionDenied_def
      os_Rename_def pending_def advance_def)


section \<open>Deleting an owned file\<close>

lemma Delete_data_removal_fails:
  "ReadOwner p w = Inr user \<Longrightarrow> outcome_at w 0 = Fails e n \<Longrightarrow>
   fst (Delete p user w) = Some (PathError (EOTHER e)) \<and> files (snd (Delete p user w)) = files w"
  by (simp add: Delete_def unsafeCheckOwner_def ReadOwner_def os_Remove_def pending_eq
      os_IsNotExist_def)

lemma Delete_marker_removal_fails:
  "ReadOwner p w = Inr user \<Longrightarrow> outcome_at w 0 = Succeeds \<Longrightarrow> outcome_at w 1 = Fails e n \<Longrightarrow>
   fst (Delete p user w) = Some (PathError (EOTHER e)) \<and>
   files (snd (Delete p user w)) = (files w)(p := None)"
  by (auto simp: Delete_def unsafeCheckOwner_def ReadOwner_def os_Remove_def pending_eq
      os_IsNotExist_def split: option.splits)

lemma Delete_succeeds:
  "ReadOwner p w = Inr user \<Longrightarrow> outcome_at w 0 = Succeeds \<Longrightarrow> outcome_at w 1 = Succeeds \<Longrightarrow>
   fst (Delete p user w) = None \<and>
   files (snd (Delete p user w)) = (files w)(p := None, getOwnerPath p := None)"
  by (auto simp: Delete_def unsafeCheckOwner_def ReadOwner_def unsafeReadOwner_def
      ioutil_ReadFile_def os_Remove_def pending_eq
      os_IsNotExist_def split: option.splits)

text \<open>
  Claim C7, as the code has it. \<open>Delete p user\<close> changes nothing in the file system
  unless the marker at \<open>p\<close> names \<open>user\<close>: it fails with the permission-denied error when
  the marker names somebody else, and with the read error when the marker cannot be
  read. When the owner matches, the data file is removed first. If that removal is
  failed with an error other than "does not exist", \<open>Delete\<close> returns this error and
  the marker (like every other file) is as before. Otherwise, the data file removed or
  found absent, the marker is removed: a failure of that removal is returned and
  leaves the marker in place with the data file gone; its success is the success of
  \<open>Delete\<close>, and neither file is there any more.
\<close>

theorem Delete_behaviour:
  "(\<forall>err. ReadOwner p w = Inl err \<longrightarrow> Delete p user w = (Some err, w)) \<and>
   (\<forall>other. ReadOwner p w = Inr other \<and> other \<noteq> user \<longrightarrow>
      Delete p user w = (Some (permissionDeniedError p), w)) \<and>
   (ReadOwner p w = Inr user \<longrightarrow>
      (\<forall>e n. outcome_at w 0 = Fails e n \<longrightarrow>
         fst (Delete p user w) = Some (PathError (EOTHER e)) \<and>
         files (snd (Delete p user w)) = files w) \<and>
      (\<forall>e n. outcome_at w 0 = Succeeds \<and> outcome_at w 1 = Fails e n \<longrightarrow>
         fst (Delete p user w) = Some (PathError (EOTHER e)) \<and>
         files (snd (Delete p user w)) = (files w)(p := None)) \<and>
      (outcome_at w 0 = Succeeds \<and> outcome_at w 1 = Succeeds \<longrightarrow>
         fst (Delete p user w) = None \<and>
         files (snd (Delete p user w)) = (files w)(p := None, getOwnerPath p := None)))"
proof -
  have "ReadOwner p w = Inl err \<Longrightarrow> Delete p user w = (Some err, w)" for err
    by (simp add: Delete_def unsafeCheckOwner_def ReadOwner_def)
  moreover have "ReadOwner p w = Inr other \<Longrightarrow> other \<noteq> user \<Longrightarrow>
      Delete p user w = (Some (permissionDeniedError p), w)" for other
    by (simp add: Delete_def unsafeCheckOwner_def ReadOwner_def)
  ultimately show ?thesis
    using Delete_data_removal_fails [of p w user] Delete_marker_removal_fails [of p w user]
      Delete_succeeds [of p w user]
    by blast
qed

theorem Delete_behaviour_witness:
  "Delete ''v.mp4'' ''bob'' \<lparr>files = Map.empty, script = []\<rparr> =
     (Some (PathError ENOENT), \<lparr>files = Map.empty, script = []\<rparr>) \<and>
   Delete ''v.mp4'' ''bob'' \<lparr>files = [''v.mp4.owner'' \<mapsto> ''alice''], script = []\<rparr> =
     (Some (permissionDeniedError ''v.mp4''),
      \<lparr>files = [''v.mp4.owner'' \<mapsto> ''alice''], script = []\<rparr>) \<and>
   fst (Delete ''v.mp4'' ''alice''
      \<lparr>files = [''v.mp4.owner'' \<mapsto> ''alice'', ''v.mp4'' \<mapsto> ''data''], script = [Fails 5 0]\<rparr>) =
     Some (PathError (EOTHER 5)) \<and>
   files (snd (Delete ''v.mp4'' ''alice''
      \<lparr>files = [''v.mp4.owner'' \<mapsto> ''alice'', ''v.mp4'' \<mapsto> ''data''], script = [Fails 5 0]\<rparr>)) =
     [''v.mp4.owner'' \<mapsto> ''alice'', ''v.mp4'' \<mapsto> ''data''] \<and>
   fst (Delete ''v.mp4'' ''alice''
      \<lparr>files = [''v.mp4.owner'' \<mapsto> ''alice''], script = [Succeeds, Fails 13 0]\<rparr>) =
     Some (PathError (EOTHER 13)) \<and>
   files (snd (Delete ''v.mp4'' ''alice''
      \<lparr>files = [''v.mp4.owner'' \<mapsto> ''alice''], script = [Succeeds, Fails 13 0]\<rparr>)) =
     [''v.mp4.owner'' \<mapsto> ''alice''](''v.mp4'' := None) \<and>
   fst (Delete ''v.mp4'' ''alice'' \<lparr>files = [''v.mp4.owner'' \<mapsto> ''alice''], script = []\<rparr>) = None \<and>
   files (snd (Delete ''v.mp4'' ''alice'' \<lparr>files = [''v.mp4.owner'' \<mapsto> ''alice''], script = []\<rparr>)) =
     [''v.mp4.owner'' \<mapsto> ''alice''](''v.mp4'' := None, getOwnerPath ''v.mp4'' := None)"
proof -
  let ?w0 = "\<lparr>files = Map.empty, script = []\<rparr>"
  let ?w1 = "\<lparr>files = [''v.mp4.owner'' \<mapsto> ''alice''], script = []\<rparr>"
  let ?w2 = "\<lparr>files = [''v.mp4.owner'' \<mapsto> ''alice'', ''v.mp4'' \<mapsto> ''data''], script = [Fails 5 0]\<rparr>"
  let ?w3 = "\<lparr>files = [''v.mp4.owner'' \<mapsto> ''alice''], script = [Succeeds, Fails 13 0]\<rparr>"
  have r0: "ReadOwner ''v.mp4'' ?w0 = Inl (PathError ENOENT)"
    and r1: "ReadOwner ''v.mp4'' ?w1 = Inr ''alice''"
    and r2: "ReadOwner ''v.mp4'' ?w2 = Inr ''alice''"
    and r3: "ReadOwner ''v.mp4'' ?w3 = Inr ''alice''"
    by (simp_all add: ReadOwner_cases getOwnerPath_def)
  have o: "outcome_at ?w2 0 = Fails 5 0" "outcome_at ?w3 0 = Succeeds"
    "outcome_at ?w3 1 = Fails 13 0" "outcome_at ?w1 0 = Succeeds" "outcome_at ?w1 1 = Succeeds"
    by (simp_all add: outcome_at_def)
  show ?thesis
    using Delete_behaviour [of "''v.mp4''" ?w0 "''bob''"] r0
      Delete_behaviour [of "''v.mp4''" ?w1 "''bob''"] r1
      Delete_behaviour [of "''v.mp4''" ?w2 "''alice''"] r2
      Delete_behaviour [of "''v.mp4''" ?w3 "''alice''"] r3
      Delete_behaviour [of "''v.mp4''" ?w1 "''alice''"] o
    by simp
qed

text \<open>
  The claim as worded fails where no marker exists: the marker does not name the owner,
  and \<open>Delete\<close> fails with the read error, which is not the permission-denied error.
\<close>

theorem Delete_behaviour_counterexample:
  "ReadOwner ''v.mp4'' \<lparr>files = Map.empty, script = []\<rparr> \<noteq> Inr ''bob'' \<and>
   fst (Delete ''v.mp4'' ''bob'' \<lparr>files = Map.empty, script = []\<rparr>) = Some (PathError ENOENT) \<and>
   \<not> IsPermissionDenied (fst (Delete ''v.mp4'' ''bob'' \<lparr>files = Map.empty, script = []\<rparr>))"
  by (simp add: Delete_def unsafeCheckOwner_cases ReadOwner_cases getOwnerPath_def
      IsPermissionDenied_def)


section \<open>Creating an owner marker\<close>


lemma unsafeCreateOwner_success:
  assumes "unsafeCreateOwner file user w = (None, w')"
  shows "files w (getOwnerPath file) = None \<and> files w' (getOwnerPath file) = Some user"
  using assms
  by (auto simp: unsafeCreateOwner_def os_Stat_def os_Create_def File_WriteString_def
      File_Close_def contents_def Let_def
      split: option.splits outcome.splits prod.splits if_splits)

lemma unsafeCreateOwner_frame:
  "x \<noteq> getOwnerPath file \<Longrightarrow> files (snd (unsafeCreateOwner file user w)) x = files w x"
  unfolding unsafeCreateOwner_def Let_def
  by (auto simp: os_Create_files File_WriteString_frame os_Remove_files
      split: option.splits prod.splits dest!: arg_cong [where f = snd])

lemma Create_write_fails:
  assumes "files w (getOwnerPath p) = None" "outcome_at w 0 = Succeeds" "outcome_at w 1 = Fails e n"
  shows "fst (Create p user w) = Some (PathError (EOTHER e))"
    and "outcome_at w 3 = Succeeds \<Longrightarrow> files (snd (Create p user w)) (getOwnerPath p) = None"
    and "outcome_at w 3 = Fails e' n' \<Longrightarrow>
           files (snd (Create p user w)) (getOwnerPath p) = Some (take n user)"
  using assms
  by (auto simp: Create_def unsafeCreateOwner_def os_Stat_def os_Create_def File_WriteString_def
      File_Close_def os_Remove_def contents_def Let_def pending_eq eval_nat_numeral
      split: option.splits outcome.splits prod.splits if_splits)

lemma Create_close_fails:
  assumes "files w (getOwnerPath p) = None" "outcome_at w 0 = Succeeds" "outcome_at w 1 = Succeeds"
    "outcome_at w 2 = Fails e n"
  shows "fst (Create p user w) = Some (PathError (EOTHER e))"
    and "outcome_at w 3 = Succeeds \<Longrightarrow> files (snd (Create p user w)) (getOwnerPath p) = None"
    and "outcome_at w 3 = Fails e' n' \<Longrightarrow>
           files (snd (Create p user w)) (getOwnerPath p) = Some user"
  using assms
  by (auto simp: Create_def unsafeCreateOwner_def os_Stat_def os_Create_def File_WriteString_def
      File_Close_def os_Remove_def contents_def Let_def pending_eq eval_nat_numeral
      split: option.splits outcome.splits prod.splits if_splits)

text \<open>
  Claim C8, as the code has it. Take a path without a marker, and let the marker file be
  created. If the write of the owner string fails, or the write succeeds and the close
  fails, \<open>Create\<close> returns the error of that step, having asked for the removal of the
  marker file. The result of that removal is discarded: when the removal is let
  through no marker is left, and when it is failed too the marker stays behind, holding
  what the write had put down.
\<close>

theorem Create_failure_cleanup:
  "files w (getOwnerPath p) = None \<and> outcome_at w 0 = Succeeds \<and>
   (outcome_at w 1 = Fails e n \<or> outcome_at w 1 = Succeeds \<and> outcome_at w 2 = Fails e n) \<longrightarrow>
     fst (Create p user w) = Some (PathError (EOTHER e)) \<and>
     (outcome_at w 3 = Succeeds \<longrightarrow> files (snd (Create p user w)) (getOwnerPath p) = None) \<and>
     (\<forall>e' n'. outcome_at w 3 = Fails e' n' \<longrightarrow>
        files (snd (Create p user w)) (getOwnerPath p) =
          Some (if outcome_at w 1 = Succeeds then user else take n user))"
  using Create_write_fails [where w = w and p = p and e = e and n = n and user = user]
    Create_close_fails [where w = w and p = p and e = e and n = n and user = user]
  by auto

theorem Create_failure_cleanup_witness:
  "fst (Create ''v.mp4'' ''alice''
      \<lparr>files = Map.empty, script = [Succeeds, Fails 28 2]\<rparr>) = Some (PathError (EOTHER 28)) \<and>
   files (snd (Create ''v.mp4'' ''alice''
      \<lparr>files = Map.empty, script = [Succeeds, Fails 28 2]\<rparr>)) (getOwnerPath ''v.mp4'') = None \<and>
   fst (Create ''v.mp4'' ''alice''
      \<lparr>files = Map.empty, script = [Succeeds, Succeeds, Fails 5 0]\<rparr>) = Some (PathError (EOTHER 5)) \<and>
   files (snd (Create ''v.mp4'' ''alice''
      \<lparr>files = Map.empty, script = [Succeeds, Succeeds, Fails 5 0]\<rparr>)) (getOwnerPath ''v.mp4'') = None"
proof -
  let ?w1 = "\<lparr>files = Map.empty, script = [Succeeds, Fails 28 2]\<rparr>"
  let ?w2 = "\<lparr>files = Map.empty, script = [Succeeds, Succeeds, Fails 5 0]\<rparr>"
  have "outcome_at ?w1 0 = Succeeds" "outcome_at ?w1 1 = Fails 28 2" "outcome_at ?w1 3 = Succeeds"
    "outcome_at ?w2 0 = Succeeds" "outcome_at ?w2 1 = Succeeds" "outcome_at ?w2 2 = Fails 5 0"
    "outcome_at ?w2 3 = Succeeds"
    by (simp_all add: outcome_at_def)
  then show ?thesis
    using Create_failure_cleanup [where w = ?w1 and p = "''v.mp4''" and e = 28 and n = 2
        and user = "''alice''"]
      Create_failure_cleanup [where w = ?w2 and p = "''v.mp4''" and e = 5 and n = 0
        and user = "''alice''"]
    by simp
qed

text \<open>
  The claim as worded fails when the clean-up itself is failed: the write of
  \<open>''alice''\<close> fails after two bytes, the removal of the marker file fails as well, and
  \<open>Create\<close> returns the write error with the marker file left behind, holding
  \<open>''al''\<close>.
\<close>

theorem Create_failure_cleanup_counterexample:
  "fst (Create ''v.mp4'' ''alice''
      \<lparr>files = Map.empty, script = [Succeeds, Fails 28 2, Succeeds, Fails 5 0]\<rparr>) =
     Some (PathError (EOTHER 28)) \<and>
   files (snd (Create ''v.mp4'' ''alice''
      \<lparr>files = Map.empty, script = [Succeeds, Fails 28 2, Succeeds, Fails 5 0]\<rparr>)) ''v.mp4.owner'' =
     Some ''al''"
  by (simp add: Create_def unsafeCreateOwner_def os_Stat_def os_Create_def File_WriteString_def
      File_Close_def os_Remove_def contents_def Let_def pending_def getOwnerPath_def)


section \<open>Ownership across a history of calls\<close>

lemma Delete_keeps_marker:
  assumes "Delete q user w = (err, w')" and "q \<noteq> getOwnerPath p"
    and "q = p \<longrightarrow> err \<noteq> None"
  shows "files w' (getOwnerPath p) = files w (getOwnerPath p)"
  using assms
  by (auto simp: Delete_def unsafeCheckOwner_cases os_Remove_def os_IsNotExist_def
      split: option.splits outcome.splits if_splits)














section \<open>Pool admission\<close>

lemma AddIfSpace_cases:
  "AddIfSpace q x =
     (if length (buffer (work q)) < capacity (work q)
      then (True, q\<lparr>work := (work q)\<lparr>buffer := buffer (work q) @ [x]\<rparr>\<rparr>)
      else (False, q))"
  by (simp add: AddIfSpace_def chan_send_default_def)

lemma add_all_accepted:
  assumes "add_all q items = (oks, q')" and "\<forall>ok\<in>set oks. ok"
  shows "(items \<noteq> [] \<longrightarrow> length (buffer (work q)) + length items \<le> capacity (work q)) \<and>
         q' = q\<lparr>work := (work q)\<lparr>buffer := buffer (work q) @ items\<rparr>\<rparr>"
  using assms
proof (induction items arbitrary: q oks)
  case Nil
  then show ?case by simp
next
  case (Cons x xs)
  obtain ok q1 where a: "AddIfSpace q x = (ok, q1)" by (cases "AddIfSpace q x")
  obtain oks1 where r: "add_all q1 xs = (oks1, q')" and o: "oks = ok # oks1"
    using Cons.prems(1) a by (auto split: prod.splits)
  have ok using Cons.prems(2) o by simp
  then have lt: "length (buffer (work q)) < capacity (work q)"
    and q1: "q1 = q\<lparr>work := (work q)\<lparr>buffer := buffer (work q) @ [x]\<rparr>\<rparr>"
    using a by (auto simp: AddIfSpace_cases split: if_splits)
  have "\<forall>ok\<in>set oks1. ok" using Cons.prems(2) o by auto
  from Cons.IH [OF r this] lt show ?case by (cases xs) (auto simp: q1)
qed

lemma add_all_room:
  "length (buffer (work q)) + length items \<le> capacity (work q) \<Longrightarrow>
   add_all q items =
     (replicate (length items) True, q\<lparr>work := (work q)\<lparr>buffer := buffer (work q) @ items\<rparr>\<rparr>)"
proof (induction items arbitrary: q)
  case Nil
  then show ?case by simp
next
  case (Cons x xs)
  let ?q1 = "q\<lparr>work := (work q)\<lparr>buffer := buffer (work q) @ [x]\<rparr>\<rparr>"
  have a: "AddIfSpace q x = (True, ?q1)" using Cons.prems by (simp add: AddIfSpace_cases)
  have "length (buffer (work ?q1)) + length xs \<le> capacity (work ?q1)"
    using Cons.prems by simp
  from Cons.IH [OF this] a show ?case by simp
qed

text \<open>
  Claim C4. Take a work queue on which no sender is suspended, of any channel capacity,
  and as many calls of \<open>AddIfSpace\<close> in a row as the capacity, all of which returned
  true. The next \<open>AddIfSpace\<close> returns false and leaves the queue as it is. In that
  state \<open>AddBlocking\<close> does not fail (it has no way to): the caller is suspended with
  its item, the buffer untouched, and the next turn of a worker that draws work takes
  the oldest item out and the caller's item into the buffer, and resumes the caller. The queue that
  \<open>New\<close> makes has capacity 1024 and accepts 1024 items in a row.
\<close>

theorem AddIfSpace_bounded:
  assumes "sendq (work q) = []" and "length items = capacity (work q)"
    and "add_all q items = (oks, q')" and "\<forall>ok\<in>set oks. ok"
  shows "AddIfSpace q' x = (False, q') \<and>
         AddBlocking q' x = (Suspended, q'\<lparr>work := (work q')\<lparr>sendq := [x]\<rparr>\<rparr>) \<and>
         (items \<noteq> [] \<longrightarrow>
            worker False (snd (AddBlocking q' x)) =
              (Runs (hd items),
               q'\<lparr>work := (work q')\<lparr>buffer := tl items @ [x], sendq := []\<rparr>\<rparr>)) \<and>
         capacity (work (New n :: 'a WorkQueue)) = 1024 \<and>
         (length items = 1024 \<longrightarrow>
            add_all (New n) items =
              (replicate 1024 True, (New n)\<lparr>work := (work (New n))\<lparr>buffer := items\<rparr>\<rparr>))"
proof -
  from add_all_accepted [OF assms(3) assms(4)] assms(2)
  have b: "items \<noteq> [] \<longrightarrow> buffer (work q) = []"
    and q': "q' = q\<lparr>work := (work q)\<lparr>buffer := buffer (work q) @ items\<rparr>\<rparr>"
    by auto
  have full: "\<not> length (buffer (work q')) < capacity (work q')"
    using q' assms(2) by simp
  have s: "sendq (work q') = []" using q' assms(1) by simp
  have 1: "AddIfSpace q' x = (False, q')"
    using full by (simp add: AddIfSpace_cases)
  have 2: "AddBlocking q' x = (Suspended, q'\<lparr>work := (work q')\<lparr>sendq := [x]\<rparr>\<rparr>)"
    using full s by (simp add: AddBlocking_def chan_send_def)
  have 3: "worker False (snd (AddBlocking q' x)) =
              (Runs (hd items),
               q'\<lparr>work := (work q')\<lparr>buffer := tl items @ [x], sendq := []\<rparr>\<rparr>)"
    if ne: "items \<noteq> []"
  proof -
    obtain i rest where i: "items = i # rest" using ne by (cases items) auto
    have q'': "q' = q\<lparr>work := (work q)\<lparr>buffer := items\<rparr>\<rparr>" using q' b ne by simp
    let ?q2 = "q'\<lparr>work := (work q')\<lparr>sendq := [x]\<rparr>\<rparr>"
    have w: "chan_recv (work ?q2) = Some (i, (work q')\<lparr>buffer := rest @ [x], sendq := []\<rparr>)"
      by (simp add: chan_recv_def q'' i)
    have st: "stop ?q2 = stop q'" by simp
    have "worker False ?q2 =
              (Runs (hd items),
               q'\<lparr>work := (work q')\<lparr>buffer := tl items @ [x], sendq := []\<rparr>\<rparr>)"
      unfolding worker_def w st
      by (cases "chan_recv (stop q')") (auto simp: i)
    then show ?thesis by (simp add: 2)
  qed
  have 4: "capacity (work (New n :: 'a WorkQueue)) = 1024"
    by (simp add: New_def make_chan_def)
  have 5: "add_all (New n) items =
      (replicate 1024 True, (New n)\<lparr>work := (work (New n))\<lparr>buffer := items\<rparr>\<rparr>)"
    if "length items = 1024"
    using add_all_room [of "New n" items] that by (simp add: New_def make_chan_def)
  from 1 2 3 4 5 show ?thesis by blast
qed


theorem AddIfSpace_bounded_witness:
  "fst (add_all (New 4) (replicate 1024 (0::nat))) = replicate 1024 True \<and>
   AddIfSpace (snd (add_all (New 4) (replicate 1024 (0::nat)))) 7 =
     (False, snd (add_all (New 4) (replicate 1024 (0::nat)))) \<and>
   fst (AddBlocking (snd (add_all (New 4) (replicate 1024 (0::nat)))) 7) = Suspended \<and>
   fst (worker False (snd (AddBlocking (snd (add_all (New 4) (replicate 1024 (0::nat)))) 7))) = Runs 0 \<and>
   sendq (work (snd (worker False
     (snd (AddBlocking (snd (add_all (New 4) (replicate 1024 (0::nat)))) 7))))) = [] \<and>
   last (buffer (work (snd (worker False
     (snd (AddBlocking (snd (add_all (New 4) (replicate 1024 (0::nat)))) 7)))))) = 7"
proof -
  let ?q = "New 4 :: nat WorkQueue"
  let ?items = "replicate 1024 (0::nat)"
  let ?q' = "?q\<lparr>work := (work ?q)\<lparr>buffer := buffer (work ?q) @ ?items\<rparr>\<rparr>"
  have a: "add_all ?q ?items = (replicate 1024 True, ?q')"
    using add_all_room [of ?q ?items] by (simp add: New_def make_chan_def)
  have s: "sendq (work ?q) = []" and l: "length ?items = capacity (work ?q)"
    by (simp_all add: New_def make_chan_def)
  have t: "\<forall>ok\<in>set (replicate 1024 True). ok" by simp
  have h: "hd ?items = 0" "?items \<noteq> []"
    by simp_all
  note T = AddIfSpace_bounded [OF s l a t, of 7 4]
  let ?q3 = "?q'\<lparr>work := (work ?q')\<lparr>buffer := tl ?items @ [7], sendq := []\<rparr>\<rparr>"
  from T have 1: "AddIfSpace ?q' 7 = (False, ?q')" by blast
  from T have 2: "fst (AddBlocking ?q' 7) = Suspended" by (metis fst_conv)
  from T h have 3: "worker False (snd (AddBlocking ?q' 7)) = (Runs 0, ?q3)" by metis
  have 4: "sendq (work ?q3) = []" "last (buffer (work ?q3)) = 7" by simp_all
  show ?thesis
    unfolding a fst_conv snd_conv 3 using 1 2 4 by (intro conjI) simp_all
qed


section \<open>Paths\<close>

lemma Split_not_Nil [simp]: "Split s sep \<noteq> []"
  by (induction s) (auto split: list.splits)

lemma Split_no_sep: "sep \<notin> set s \<Longrightarrow> Split s sep = [s]"
  by (induction s) auto

lemma Split_append: "Split (a @ sep # b) sep = Split a sep @ Split b sep"
  by (induction a) (auto split: list.splits)

lemma Split_elems_no_sep: "e \<in> set (Split s sep) \<Longrightarrow> sep \<notin> set e"
  by (induction s arbitrary: e) (auto split: list.splits if_splits)

lemma join_with_snoc:
  "join_with sep (xs @ [y]) = (if xs = [] then y else join_with sep xs @ sep # y)"
  by (induction sep xs rule: join_with.induct) auto

lemma join_with_Nil_iff: "[] \<notin> set xs \<Longrightarrow> join_with sep xs = [] \<longleftrightarrow> xs = []"
  by (induction sep xs rule: join_with.induct) auto

lemma clean_step_plain: "plain name \<Longrightarrow> clean_step rooted stack name = name # stack"
  by (auto simp: clean_step_def plain_def)

lemma clean_step_nonempty: "[] \<notin> set stack \<Longrightarrow> [] \<notin> set (clean_step rooted stack e)"
  by (auto simp: clean_step_def split: list.splits)

lemma foldl_clean_step_nonempty:
  "[] \<notin> set stack \<Longrightarrow> [] \<notin> set (foldl (clean_step rooted) stack es)"
  by (induction es arbitrary: stack) (simp_all add: clean_step_nonempty)

lemma Clean_dir_name:
  assumes "plain name" and "d \<noteq> []"
  shows "\<exists>pre. Clean (d @ CHR ''/'' # name) = pre @ name \<and> (pre = [] \<or> last pre = CHR ''/'')"
proof -
  define rooted where "rooted = (hd d = CHR ''/'')"
  define stack where "stack = foldl (clean_step rooted) [] (Split d (CHR ''/''))"
  have sp: "Split (d @ CHR ''/'' # name) (CHR ''/'') = Split d (CHR ''/'') @ [name]"
    using assms(1) by (simp add: Split_append Split_no_sep plain_def)
  have st: "foldl (clean_step rooted) [] (Split (d @ CHR ''/'' # name) (CHR ''/'')) = name # stack"
    by (simp add: sp clean_step_plain [OF assms(1)] stack_def)
  have hd: "hd (d @ CHR ''/'' # name) = hd d" using assms(2) by simp
  have n0: "name \<noteq> []" using assms(1) by (simp add: plain_def)
  let ?out = "join_with (CHR ''/'') (rev stack @ [name])"
  have c: "Clean (d @ CHR ''/'' # name) = (if rooted then CHR ''/'' # ?out else ?out)"
  proof (cases rooted)
    case True
    then have h: "hd d = CHR ''/''" by (simp add: rooted_def)
    have "foldl (clean_step True) [] (Split (d @ CHR ''/'' # name) (CHR ''/'')) = name # stack"
      using st True by simp
    then show ?thesis using True by (simp add: Clean_def Let_def hd h)
  next
    case False
    then have h: "hd d \<noteq> CHR ''/''" by (simp add: rooted_def)
    have "foldl (clean_step False) [] (Split (d @ CHR ''/'' # name) (CHR ''/'')) = name # stack"
      using st False by simp
    moreover have "?out \<noteq> []" using n0 by (simp add: join_with_snoc)
    ultimately show ?thesis using False by (simp add: Clean_def Let_def hd h)
  qed
  have "\<exists>pre. ?out = pre @ name \<and> (pre = [] \<or> last pre = CHR ''/'')"
  proof (cases "stack = []")
    case True
    then show ?thesis by (simp add: exI [of _ "[]"])
  next
    case False
    then have "?out = (join_with (CHR ''/'') (rev stack) @ ''/'') @ name"
      by (simp add: join_with_snoc)
    then show ?thesis by (metis last_snoc)
  qed
  then obtain pre where p: "?out = pre @ name" "pre = [] \<or> last pre = CHR ''/''" by blast
  show ?thesis
  proof (cases rooted)
    case True
    then have "Clean (d @ CHR ''/'' # name) = (CHR ''/'' # pre) @ name" by (simp add: c p(1))
    moreover have "last (CHR ''/'' # pre) = CHR ''/''" using p(2) by auto
    ultimately show ?thesis by blast
  next
    case False
    then show ?thesis using c p by auto
  qed
qed

lemma Clean_plain: "plain name \<Longrightarrow> Clean name = name"
proof -
  assume p: "plain name"
  then have "hd name \<noteq> CHR ''/''" "name \<noteq> []"
    by (cases name; auto simp: plain_def)+
  then show ?thesis
    using p by (simp add: Clean_def Let_def Split_no_sep plain_def clean_step_plain [OF p])
qed

lemma last_Split_suffix:
  assumes "CHR ''/'' \<notin> set name" and "pre = [] \<or> last pre = CHR ''/''"
  shows "last (Split (pre @ name) (CHR ''/'')) = name"
proof (cases "pre = []")
  case True
  then show ?thesis using assms(1) by (simp add: Split_no_sep)
next
  case False
  then obtain pre' where "pre = pre' @ ''/''"
    using assms(2) by (metis append_butlast_last_id)
  then show ?thesis
    using assms(1) by (simp add: Split_append Split_no_sep)
qed

lemma Join_dir_name:
  assumes "plain name"
  shows "last (Split (Join [d, name]) (CHR ''/'')) = name"
proof (cases "d = []")
  case True
  then show ?thesis
    using assms by (simp add: Join_def Clean_plain Split_no_sep plain_def)
next
  case False
  have j: "Join [d, name] = Clean (d @ CHR ''/'' # name)"
    using False assms by (simp add: Join_def plain_def)
  obtain pre where "Clean (d @ CHR ''/'' # name) = pre @ name" "pre = [] \<or> last pre = CHR ''/''"
    using Clean_dir_name [OF assms False] by blast
  then show ?thesis
    using last_Split_suffix [of name pre] assms by (simp add: j plain_def)
qed

lemma HasSuffix_append [simp]: "HasSuffix (t @ suf) suf"
  by (simp add: HasSuffix_def)

lemma TrimSuffix_append [simp]: "TrimSuffix (t @ suf) suf = t"
  by (simp add: TrimSuffix_def)

lemma plain_source_name: "CHR ''/'' \<notin> set token \<Longrightarrow> plain (token @ ''.src.mp4'')"
  by (auto simp: plain_def append_eq_Cons_conv)


section \<open>The recovery scan\<close>

lemma log_Printf_simps [simp]:
  "fs (log_Printf l st) = fs st"
  "fastProcessQueue (log_Printf l st) = fastProcessQueue st"
  "slowProcessQueue (log_Printf l st) = slowProcessQueue st"
  "calls (log_Printf l st) = calls st"
  "logs (log_Printf l st) = logs st @ [l]"
  by (simp_all add: log_Printf_def)

lemma add_all_append:
  "snd (add_all q (xs @ ys)) = snd (add_all (snd (add_all q xs)) ys)"
  by (induction xs arbitrary: q) (simp_all add: split_beta)

lemma queuePendingVideo_queue:
  assumes "CHR ''/'' \<notin> set (Name file)"
  shows "fs (queuePendingVideo cfg st file) = fs st \<and>
         slowProcessQueue (queuePendingVideo cfg st file) = slowProcessQueue st \<and>
         calls (queuePendingVideo cfg st file) = calls st \<and>
         fastProcessQueue (queuePendingVideo cfg st file) =
           snd (add_all (fastProcessQueue st) (resubmitted cfg (fs st) file))"
  using assms
  by (auto simp: queuePendingVideo_def resubmitted_def pendingOwner_def pendingToken_def Let_def
      Split_no_sep split: sum.splits prod.splits)


lemma add_all_buffer:
  "snd (add_all q items) =
     q\<lparr>work := (work q)\<lparr>buffer := buffer (work q)
        @ take (capacity (work q) - length (buffer (work q))) items\<rparr>\<rparr>"
proof (induction items arbitrary: q)
  case Nil
  then show ?case by simp
next
  case (Cons x xs)
  show ?case
  proof (cases "length (buffer (work q)) < capacity (work q)")
    case True
    then obtain k where k: "capacity (work q) - length (buffer (work q)) = Suc k"
      by (metis Suc_diff_Suc)
    then have "capacity (work q) - Suc (length (buffer (work q))) = k" by simp
    then show ?thesis
      using True k by (simp add: split_beta AddIfSpace_cases Cons.IH)
  next
    case False
    then show ?thesis
      by (simp add: split_beta AddIfSpace_cases Cons.IH)
  qed
qed

lemma scan_fold:
  assumes "\<forall>file\<in>set entries. CHR ''/'' \<notin> set (Name file)"
  shows "fs (foldl (queuePendingVideo cfg) st entries) = fs st \<and>
         slowProcessQueue (foldl (queuePendingVideo cfg) st entries) = slowProcessQueue st \<and>
         calls (foldl (queuePendingVideo cfg) st entries) = calls st \<and>
         fastProcessQueue (foldl (queuePendingVideo cfg) st entries) =
           snd (add_all (fastProcessQueue st) (concat (map (resubmitted cfg (fs st)) entries)))"
  using assms
proof (induction entries arbitrary: st)
  case Nil
  then show ?case by simp
next
  case (Cons entry entries)
  have f: "CHR ''/'' \<notin> set (Name entry)" using Cons.prems by simp
  note q = queuePendingVideo_queue [OF f, of cfg st]
  have "\<forall>file\<in>set entries. CHR ''/'' \<notin> set (Name file)" using Cons.prems by simp
  from Cons.IH [OF this, of "queuePendingVideo cfg st entry"] q
  show ?case by (simp add: add_all_append)
qed

text \<open>
  Claim C5. The names in a directory listing contain no slash. The scan leaves the file
  system and the slow queue as they are, calls no external program, and appends to the
  buffer of the fast queue, in the order of the listing and as far as the capacity of
  the channel goes, one job for every entry that is not a directory, has a name ending
  in \<open>.src.mp4\<close>, and whose token (the name without that suffix) has a readable
  serve-video owner and a readable serve-thumbnail owner that are equal: the job that
  \<open>createVideoToTranscode\<close> builds from the token and that owner. The jobs for which
  the buffer has no room are skipped. An entry that is a directory or has another name
  changes nothing at all; an entry with the suffix whose owners cannot both be read or
  differ only adds two lines to the log. When the listing itself fails, only the log
  changes.
\<close>

theorem recovery_scan:
  assumes "\<forall>file\<in>set entries. CHR ''/'' \<notin> set (Name file)"
  shows
    "fs (queuePendingVideosToTranscode cfg (Inr entries) st) = fs st \<and>
     slowProcessQueue (queuePendingVideosToTranscode cfg (Inr entries) st) = slowProcessQueue st \<and>
     calls (queuePendingVideosToTranscode cfg (Inr entries) st) = calls st \<and>
     fastProcessQueue (queuePendingVideosToTranscode cfg (Inr entries) st) =
       (fastProcessQueue st)\<lparr>work := (work (fastProcessQueue st))\<lparr>buffer :=
          buffer (work (fastProcessQueue st))
          @ take (capacity (work (fastProcessQueue st)) - length (buffer (work (fastProcessQueue st))))
              (concat (map (resubmitted cfg (fs st)) entries))\<rparr>\<rparr> \<and>
     (\<forall>file\<in>set entries. IsDir file \<or> \<not> HasSuffix (Name file) ''.src.mp4'' \<longrightarrow>
        queuePendingVideo cfg st file = st) \<and>
     (\<forall>file\<in>set entries. \<not> IsDir file \<and> HasSuffix (Name file) ''.src.mp4'' \<and>
        pendingOwner cfg (fs st) (pendingToken (Name file)) = None \<longrightarrow>
        queuePendingVideo cfg st file =
           st\<lparr>logs := logs st @
             [Message (''Found unprocessed video '' @ Name file @ '', preparing to transcode''),
              Message (Name file @ skipReason cfg (fs st) (pendingToken (Name file)))]\<rparr>) \<and>
     queuePendingVideosToTranscode cfg (Inl err) st =
       st\<lparr>logs := logs st @ [MessageError ''Failed to search pending transcode work: '' err]\<rparr>"
proof -
  have 1: "queuePendingVideo cfg st entry = st"
    if "IsDir entry \<or> \<not> HasSuffix (Name entry) ''.src.mp4''" for entry
    using that by (auto simp: queuePendingVideo_def Let_def)
  have 2: "queuePendingVideo cfg st entry =
           st\<lparr>logs := logs st @
             [Message (''Found unprocessed video '' @ Name entry @ '', preparing to transcode''),
              Message (Name entry @ skipReason cfg (fs st) (pendingToken (Name entry)))]\<rparr>"
    if "entry \<in> set entries" "\<not> IsDir entry \<and> HasSuffix (Name entry) ''.src.mp4'' \<and>
        pendingOwner cfg (fs st) (pendingToken (Name entry)) = None" for entry
  proof -
    have "CHR ''/'' \<notin> set (Name entry)" using assms that(1) by simp
    then show ?thesis
      using that(2)
      by (auto simp: queuePendingVideo_def pendingOwner_def pendingToken_def skipReason_def
          Let_def Split_no_sep log_Printf_def split: sum.splits if_splits)
  qed
  show ?thesis
    using scan_fold [OF assms, of cfg st] 1 2
    by (simp add: queuePendingVideosToTranscode_def add_all_buffer log_Printf_def)
qed


lemma Join_example [simp]:
  "Join [''srv'', ''a.mp4''] = ''srv/a.mp4''" "Join [''srv'', ''a.jpg''] = ''srv/a.jpg''"
  "Join [''srv'', ''c.mp4''] = ''srv/c.mp4''" "Join [''srv'', ''c.jpg''] = ''srv/c.jpg''"
  "Join [''tmp'', ''a.dl.mp4''] = ''tmp/a.dl.mp4''" "Join [''tmp'', ''a.src.mp4''] = ''tmp/a.src.mp4''"
  "Join [''tmp'', ''a.dst.mp4''] = ''tmp/a.dst.mp4''" "Join [''tmp'', ''a.jpg''] = ''tmp/a.jpg''"
  by (simp_all add: Join_def Clean_def clean_step_def)

theorem recovery_scan_witness:
  "buffer (work (fastProcessQueue (queuePendingVideosToTranscode
      \<lparr>tempBase = ''tmp'', serveBase = ''srv'', storageUri = ''http://h/s'', apiUri = ''http://h/api''\<rparr>
      (Inr [\<lparr>Name = ''a.src.mp4'', IsDir = False\<rparr>, \<lparr>Name = ''c.src.mp4'', IsDir = False\<rparr>,
            \<lparr>Name = ''d.src.mp4'', IsDir = True\<rparr>, \<lparr>Name = ''a.dst.mp4'', IsDir = False\<rparr>])
      \<lparr>fs = \<lparr>files = [''srv/a.mp4.owner'' \<mapsto> ''u'', ''srv/a.jpg.owner'' \<mapsto> ''u'',
                          ''srv/c.mp4.owner'' \<mapsto> ''u''], script = []\<rparr>,
        fastProcessQueue = New 4, slowProcessQueue = New 1, logs = [], calls = []\<rparr>))) =
   [WorkFast \<lparr>dlPath = ''tmp/a.dl.mp4'', srcPath = ''tmp/a.src.mp4'', dstPath = ''tmp/a.dst.mp4'',
      servePath = ''srv/a.mp4'', url = ''http://h/s/a.mp4'', thumbDstPath = ''tmp/a.jpg'',
      thumbServePath = ''srv/a.jpg'', thumbUrl = ''http://h/s/a.jpg'',
      deleteUrl = ''http://h/api/uploads/a'', owner = ''u'', rotation = 0\<rparr>]"
proof -
  let ?cfg = "\<lparr>tempBase = ''tmp'', serveBase = ''srv'', storageUri = ''http://h/s'',
      apiUri = ''http://h/api''\<rparr>"
  let ?entries = "[\<lparr>Name = ''a.src.mp4'', IsDir = False\<rparr>, \<lparr>Name = ''c.src.mp4'', IsDir = False\<rparr>,
            \<lparr>Name = ''d.src.mp4'', IsDir = True\<rparr>, \<lparr>Name = ''a.dst.mp4'', IsDir = False\<rparr>]"
  let ?w = "\<lparr>files = [''srv/a.mp4.owner'' \<mapsto> ''u'', ''srv/a.jpg.owner'' \<mapsto> ''u'',
                          ''srv/c.mp4.owner'' \<mapsto> ''u''], script = []\<rparr>"
  let ?st = "\<lparr>fs = ?w, fastProcessQueue = New 4, slowProcessQueue = New 1, logs = [], calls = []\<rparr>"
  have n: "\<forall>file\<in>set ?entries. CHR ''/'' \<notin> set (Name file)" by simp
  have r: "concat (map (resubmitted ?cfg (fs ?st)) ?entries) =
      [WorkFast (createVideoToTranscode ?cfg ''a'' ''srv/a.mp4'' ''srv/a.jpg'' ''u'')]"
    by (simp add: resubmitted_def pendingToken_def pendingOwner_def TrimSuffix_def HasSuffix_def
        ReadOwner_cases getOwnerPath_def)
  note T = recovery_scan [OF n, of ?cfg ?st]
  note q = T [THEN conjunct2, THEN conjunct2, THEN conjunct2, THEN conjunct1]
  show ?thesis
    unfolding q r by (simp add: New_def make_chan_def createVideoToTranscode_def)
qed


section \<open>Tokens and the paths of a job\<close>

lemma encodeURL_nth: "k < 64 \<Longrightarrow> encodeURL ! k \<noteq> CHR ''/''"
proof -
  assume "k < 64"
  moreover have "length encodeURL = 64" by (simp add: encodeURL_def)
  ultimately have "encodeURL ! k \<in> set encodeURL" by (metis nth_mem)
  moreover have "CHR ''/'' \<notin> set encodeURL" by (simp add: encodeURL_def)
  ultimately show ?thesis by metis
qed

lemma encodeURL_digits:
  assumes "n < 16777216"
  shows "CHR ''/'' \<notin> set [encodeURL ! (n div 262144), encodeURL ! (n div 4096 mod 64),
           encodeURL ! (n div 64 mod 64), encodeURL ! (n mod 64)]"
proof -
  have "n div 262144 < 64" using assms by simp
  then show ?thesis
    using encodeURL_nth [of "n div 262144"] encodeURL_nth [of "n div 4096 mod 64"]
      encodeURL_nth [of "n div 64 mod 64"] encodeURL_nth [of "n mod 64"]
    by auto
qed

lemma EncodeToString_no_slash: "CHR ''/'' \<notin> set (EncodeToString bytes)"
proof (induction bytes rule: EncodeToString.induct)
  case (1 a b c rest)
  define n where "n = (of_char a * 65536 + of_char b * 256 + of_char c :: nat)"
  have "of_char a < (256::nat)" "of_char b < (256::nat)" "of_char c < (256::nat)" by simp_all
  then have "n < 16777216" unfolding n_def by linarith
  from encodeURL_digits [OF this] 1 show ?case
    unfolding EncodeToString.simps Let_def n_def [symmetric] by simp
next
  case (2 a b)
  define n where "n = (of_char a * 65536 + of_char b * 256 :: nat)"
  have "of_char a < (256::nat)" "of_char b < (256::nat)" by simp_all
  then have "n < 16777216" unfolding n_def by linarith
  from encodeURL_digits [OF this] show ?case
    unfolding EncodeToString.simps Let_def n_def [symmetric] by simp
next
  case (3 a)
  define n where "n = (of_char a * 65536 :: nat)"
  have "of_char a < (256::nat)" by simp
  then have "n < 16777216" unfolding n_def by linarith
  from encodeURL_digits [OF this] show ?case
    unfolding EncodeToString.simps Let_def n_def [symmetric] by simp
next
  case 4
  then show ?case by simp
qed

lemma generateToken_no_slash:
  "generateToken rand_Read = Inr token \<Longrightarrow> CHR ''/'' \<notin> set token"
  by (auto simp: generateToken_def EncodeToString_no_slash split: sum.splits)


lemma queuePendingVideo_enqueues:
  assumes "CHR ''/'' \<notin> set token"
    and "ReadOwner (Join [serveBase cfg, token @ ''.mp4'']) (fs st) = Inr user"
    and "ReadOwner (Join [serveBase cfg, token @ ''.jpg'']) (fs st) = Inr user"
    and "length (buffer (work (fastProcessQueue st))) < capacity (work (fastProcessQueue st))"
  shows "buffer (work (fastProcessQueue
           (queuePendingVideo cfg st \<lparr>Name = token @ ''.src.mp4'', IsDir = False\<rparr>))) =
         buffer (work (fastProcessQueue st)) @
           [WorkFast (createVideoToTranscode cfg token (Join [serveBase cfg, token @ ''.mp4''])
              (Join [serveBase cfg, token @ ''.jpg'']) user)]"
proof -
  have n: "CHR ''/'' \<notin> set (Name \<lparr>Name = token @ ''.src.mp4'', IsDir = False\<rparr>)"
    using assms(1) by simp
  have r: "resubmitted cfg (fs st) \<lparr>Name = token @ ''.src.mp4'', IsDir = False\<rparr> =
      [WorkFast (createVideoToTranscode cfg token (Join [serveBase cfg, token @ ''.mp4''])
              (Join [serveBase cfg, token @ ''.jpg'']) user)]"
    using assms(2,3) by (simp add: resubmitted_def pendingToken_def pendingOwner_def)
  show ?thesis
    using queuePendingVideo_queue [OF n, of cfg st] assms(4)
    by (simp add: r AddIfSpace_cases)
qed

text \<open>
  Claim C10. A token is a string without a slash: \<open>generateToken\<close> returns no other
  (\<open>generateToken_no_slash\<close>), and a name in a directory listing holds none. For such a
  token, the source path of the job that the upload handler builds is the join of the
  temporary directory with the token followed by \<open>.src.mp4\<close>, and this is the name of
  the file, the last element of the path. From that name the scan gets the token back,
  and, finding both markers with the owner of the job and room in the fast queue, it
  submits a job that is equal to the first in all its fields: source, destination,
  serve and thumbnail paths, addresses, owner, and no rotation yet.
\<close>

theorem recovery_roundtrip:
  assumes "CHR ''/'' \<notin> set token"
    and "video = createVideoToTranscode cfg token (Join [serveBase cfg, token @ ''.mp4''])
           (Join [serveBase cfg, token @ ''.jpg'']) user"
  shows "srcPath video = Join [tempBase cfg, token @ ''.src.mp4''] \<and>
         last (Split (srcPath video) (CHR ''/'')) = token @ ''.src.mp4'' \<and>
         pendingToken (last (Split (srcPath video) (CHR ''/''))) = token \<and>
         (\<forall>st. ReadOwner (servePath video) (fs st) = Inr user \<and>
               ReadOwner (thumbServePath video) (fs st) = Inr user \<and>
               length (buffer (work (fastProcessQueue st))) < capacity (work (fastProcessQueue st)) \<longrightarrow>
            buffer (work (fastProcessQueue
              (queuePendingVideo cfg st
                 \<lparr>Name = last (Split (srcPath video) (CHR ''/'')), IsDir = False\<rparr>))) =
            buffer (work (fastProcessQueue st)) @ [WorkFast video])"
proof -
  have s: "srcPath video = Join [tempBase cfg, token @ ''.src.mp4'']"
    and sp: "servePath video = Join [serveBase cfg, token @ ''.mp4'']"
    and tp: "thumbServePath video = Join [serveBase cfg, token @ ''.jpg'']"
    by (simp_all add: assms(2) createVideoToTranscode_def)
  have l: "last (Split (srcPath video) (CHR ''/'')) = token @ ''.src.mp4''"
    unfolding s by (rule Join_dir_name) (rule plain_source_name [OF assms(1)])
  have t: "pendingToken (token @ ''.src.mp4'') = token"
    by (simp add: pendingToken_def)
  show ?thesis
    using queuePendingVideo_enqueues [OF assms(1), of cfg _ user]
    by (simp add: l t s [symmetric] sp tp assms(2) [symmetric])
qed


theorem recovery_roundtrip_witness:
  "generateToken (Inr ''0123456789abcdefgh'') = Inr ''video-MDEyMzQ1Njc4OWFiY2RlZmdo'' \<and>
   srcPath (createVideoToTranscode
      \<lparr>tempBase = ''tmp'', serveBase = ''srv'', storageUri = ''http://h/s'', apiUri = ''http://h/api''\<rparr>
      ''video-MDEyMzQ1Njc4OWFiY2RlZmdo'' ''srv/video-MDEyMzQ1Njc4OWFiY2RlZmdo.mp4'' ''srv/video-MDEyMzQ1Njc4OWFiY2RlZmdo.jpg'' ''alice'') =
     ''tmp/video-MDEyMzQ1Njc4OWFiY2RlZmdo.src.mp4'' \<and>
   pendingToken (last (Split ''tmp/video-MDEyMzQ1Njc4OWFiY2RlZmdo.src.mp4'' (CHR ''/''))) = ''video-MDEyMzQ1Njc4OWFiY2RlZmdo'' \<and>
   buffer (work (fastProcessQueue (queuePendingVideo
      \<lparr>tempBase = ''tmp'', serveBase = ''srv'', storageUri = ''http://h/s'', apiUri = ''http://h/api''\<rparr>
      \<lparr>fs = \<lparr>files = [''srv/video-MDEyMzQ1Njc4OWFiY2RlZmdo.mp4.owner'' \<mapsto> ''alice'',
                          ''srv/video-MDEyMzQ1Njc4OWFiY2RlZmdo.jpg.owner'' \<mapsto> ''alice''], script = []\<rparr>,
        fastProcessQueue = New 4, slowProcessQueue = New 1, logs = [], calls = []\<rparr>
      \<lparr>Name = ''video-MDEyMzQ1Njc4OWFiY2RlZmdo.src.mp4'', IsDir = False\<rparr>))) =
     [WorkFast (createVideoToTranscode
      \<lparr>tempBase = ''tmp'', serveBase = ''srv'', storageUri = ''http://h/s'', apiUri = ''http://h/api''\<rparr>
      ''video-MDEyMzQ1Njc4OWFiY2RlZmdo'' ''srv/video-MDEyMzQ1Njc4OWFiY2RlZmdo.mp4'' ''srv/video-MDEyMzQ1Njc4OWFiY2RlZmdo.jpg'' ''alice'')]"
proof -
  let ?cfg = "\<lparr>tempBase = ''tmp'', serveBase = ''srv'', storageUri = ''http://h/s'',
      apiUri = ''http://h/api''\<rparr>"
  let ?token = "''video-MDEyMzQ1Njc4OWFiY2RlZmdo''"
  let ?st = "\<lparr>fs = \<lparr>files = [''srv/video-MDEyMzQ1Njc4OWFiY2RlZmdo.mp4.owner'' \<mapsto> ''alice'',
                          ''srv/video-MDEyMzQ1Njc4OWFiY2RlZmdo.jpg.owner'' \<mapsto> ''alice''], script = []\<rparr>,
        fastProcessQueue = New 4, slowProcessQueue = New 1, logs = [], calls = []\<rparr>"
  let ?video = "createVideoToTranscode ?cfg ?token ''srv/video-MDEyMzQ1Njc4OWFiY2RlZmdo.mp4'' ''srv/video-MDEyMzQ1Njc4OWFiY2RlZmdo.jpg''
      ''alice''"
  have g: "generateToken (Inr ''0123456789abcdefgh'') = Inr ?token"
    by (simp add: generateToken_def encodeURL_def)
  have n: "CHR ''/'' \<notin> set ?token" by simp
  have j1: "Join [serveBase ?cfg, ?token @ ''.mp4''] = ''srv/video-MDEyMzQ1Njc4OWFiY2RlZmdo.mp4''"
    by (simp add: Join_def Clean_def clean_step_def)
  have j2: "Join [serveBase ?cfg, ?token @ ''.jpg''] = ''srv/video-MDEyMzQ1Njc4OWFiY2RlZmdo.jpg''"
    by (simp add: Join_def Clean_def clean_step_def)
  have j3: "Join [tempBase ?cfg, ?token @ ''.src.mp4''] = ''tmp/video-MDEyMzQ1Njc4OWFiY2RlZmdo.src.mp4''"
    by (simp add: Join_def Clean_def clean_step_def)
  have v: "?video = createVideoToTranscode ?cfg ?token (Join [serveBase ?cfg, ?token @ ''.mp4''])
           (Join [serveBase ?cfg, ?token @ ''.jpg'']) ''alice''"
    by (simp only: j1 j2)
  note T = recovery_roundtrip [OF n v]
  note T1 = T [THEN conjunct1]
  note T2 = T [THEN conjunct2, THEN conjunct1]
  note T3 = T [THEN conjunct2, THEN conjunct2, THEN conjunct1]
  note T4 = T [THEN conjunct2, THEN conjunct2, THEN conjunct2, THEN spec, of ?st]
  have s: "srcPath ?video = ''tmp/video-MDEyMzQ1Njc4OWFiY2RlZmdo.src.mp4''"
    using T1 by (simp only: j3)
  have sv: "servePath ?video = ''srv/video-MDEyMzQ1Njc4OWFiY2RlZmdo.mp4''" "thumbServePath ?video = ''srv/video-MDEyMzQ1Njc4OWFiY2RlZmdo.jpg''"
    by (simp_all add: createVideoToTranscode_def)
  have r: "ReadOwner (servePath ?video) (fs ?st) = Inr ''alice'' \<and>
    ReadOwner (thumbServePath ?video) (fs ?st) = Inr ''alice'' \<and>
    length (buffer (work (fastProcessQueue ?st))) < capacity (work (fastProcessQueue ?st))"
    unfolding sv by (simp add: ReadOwner_cases getOwnerPath_def New_def make_chan_def)
  have l: "last (Split (srcPath ?video) (CHR ''/'')) = ''video-MDEyMzQ1Njc4OWFiY2RlZmdo.src.mp4''"
    using T2 by simp
  have b: "buffer (work (fastProcessQueue ?st)) = []"
    by (simp add: New_def make_chan_def)
  note q = T4 [THEN mp, OF r]
  have p: "pendingToken (last (Split ''tmp/video-MDEyMzQ1Njc4OWFiY2RlZmdo.src.mp4'' (CHR ''/''))) = ?token"
    using T3 unfolding s .
  have q': "buffer (work (fastProcessQueue (queuePendingVideo ?cfg ?st
      \<lparr>Name = ''video-MDEyMzQ1Njc4OWFiY2RlZmdo.src.mp4'', IsDir = False\<rparr>))) = [WorkFast ?video]"
    using q unfolding l b by simp
  from g s p q' show ?thesis by (intro conjI)
qed


section \<open>The fast stage\<close>

lemma logError_outcome: "logError err context action st = log_Printf (outcome_line err context action) st"
  by (simp add: logError_def outcome_line_def split: option.splits)

lemma on_fs_simps [simp]:
  "fst (on_fs f st) = fst (f (fs st))"
  "fs (snd (on_fs f st)) = snd (f (fs st))"
  "fastProcessQueue (snd (on_fs f st)) = fastProcessQueue st"
  "slowProcessQueue (snd (on_fs f st)) = slowProcessQueue st"
  "logs (snd (on_fs f st)) = logs st"
  "calls (snd (on_fs f st)) = calls st"
  by (simp_all add: on_fs_def split_beta)

lemma generateThumbnail_frame:
  "fastProcessQueue (snd (generateThumbnail env video t st)) = fastProcessQueue st \<and>
   slowProcessQueue (snd (generateThumbnail env video t st)) = slowProcessQueue st \<and>
   logs (snd (generateThumbnail env video t st)) = logs st \<and>
   (\<exists>cs. calls (snd (generateThumbnail env video t st)) = calls st @ cs)"
  by (auto simp: generateThumbnail_def ExtractDuration_def GenerateThumbnail_def Let_def
      split: sum.splits prod.splits option.splits dest!: arg_cong [where f = snd])

lemma generateThumbnail_duration_fails:
  "avprobe_duration env (fs st) (srcPath video) = Inl e \<Longrightarrow>
   fst (generateThumbnail env video t st) = Some e"
  by (simp add: generateThumbnail_def ExtractDuration_def)

lemma transcodeVideo_frame:
  "fastProcessQueue (snd (transcodeVideo env video quality st)) = fastProcessQueue st \<and>
   slowProcessQueue (snd (transcodeVideo env video quality st)) = slowProcessQueue st \<and>
   logs (snd (transcodeVideo env video quality st)) = logs st \<and>
   calls (snd (transcodeVideo env video quality st)) =
     calls st @ [CallTranscodeMP4 (srcPath video) (dstPath video)
        \<lparr>CompensateRotation = rotation video, Quality = quality, ExtraArgs = []\<rparr>]"
  by (auto simp: transcodeVideo_def TranscodeMP4_def Let_def
      split: sum.splits prod.splits option.splits dest!: arg_cong [where f = snd])


lemma AddBlocking_keeps_item:
  "item \<in> set (buffer (work (snd (AddBlocking q item)))) \<union> set (sendq (work (snd (AddBlocking q item))))"
  by (simp add: AddBlocking_def chan_send_def)

lemma generateThumbnail_outcome:
  "fst (generateThumbnail env video t st) =
     (case avprobe_duration env (fs st) (srcPath video) of
        Inl e \<Rightarrow> Some e
      | Inr duration \<Rightarrow>
          (case avconv_thumbnail env (fs st) (srcPath video) (thumbDstPath video) (duration * t)
                  \<lparr>CompensateRotation = rotation video, Quality = QualityHigh, ExtraArgs = []\<rparr> of
             (Some e, out) \<Rightarrow> Some e
           | (None, out) \<Rightarrow>
               fst (Move (thumbDstPath video) (thumbServePath video) (owner video)
                      (put_output (thumbDstPath video) out (fs st)))))"
  by (simp add: generateThumbnail_def ExtractDuration_def GenerateThumbnail_def Let_def
      on_fs_def split_beta split: sum.splits option.splits)

lemma transcodeVideo_outcome:
  "fst (transcodeVideo env video quality st) =
     (case avconv_transcode env (fs st) (srcPath video) (dstPath video)
             \<lparr>CompensateRotation = rotation video, Quality = quality, ExtraArgs = []\<rparr> of
        (Some e, out) \<Rightarrow> Some e
      | (None, out) \<Rightarrow>
          fst (Move (dstPath video) (servePath video) (owner video)
                 (put_output (dstPath video) out (fs st))))"
  by (simp add: transcodeVideo_def TranscodeMP4_def Let_def on_fs_def split_beta
      split: sum.splits option.splits)

lemma generateThumbnail_fs_only:
  assumes "fs sa = fs sb"
  shows "fst (generateThumbnail env video t sa) = fst (generateThumbnail env video t sb)"
    and "fs (snd (generateThumbnail env video t sa)) = fs (snd (generateThumbnail env video t sb))"
  using assms
  by (simp_all add: generateThumbnail_def ExtractDuration_def GenerateThumbnail_def Let_def
      on_fs_def split_beta split: sum.splits option.splits)

lemma transcodeVideo_fs_only:
  assumes "fs sa = fs sb"
  shows "fst (transcodeVideo env video quality sa) = fst (transcodeVideo env video quality sb)"
    and "fs (snd (transcodeVideo env video quality sa)) = fs (snd (transcodeVideo env video quality sb))"
  using assms
  by (simp_all add: transcodeVideo_def TranscodeMP4_def Let_def on_fs_def split_beta
      split: sum.splits option.splits)

lemma logError_fs [simp]: "fs (logError err context action st) = fs st"
  by (simp add: logError_outcome)

text \<open>
  Claim C6. Whatever the external programs answer and whatever the file system does,
  \<open>processVideoFast\<close> goes through all its steps and writes three lines to the log, one
  for each step in their order, and the line of a step is a failure line, with the
  error of the step, exactly when the step failed. The rotation probe is run first; the
  rotation of the job becomes the probed one when the probe succeeds and stays what it
  was when the probe fails, which is 0 for a job made by \<open>createVideoToTranscode\<close>. The
  thumbnail step fails exactly when the duration probe fails, or the thumbnail program
  fails, or the move of the thumbnail to its serving path fails, and its line carries
  that error. Whatever the thumbnail step did, the low-quality transcode is run after
  it, with that rotation, on the file system the thumbnail step left; it fails exactly
  when the transcoding program fails or the move of the result to the serving path
  fails, and its line carries that error. At the end the job, with that rotation, is
  sent to the slow queue with \<open>AddBlocking\<close>, so that it sits in the buffer of the slow
  queue or with its suspended senders. The fast queue is not touched.
\<close>

theorem processVideoFast_fail_open:
  assumes "processVideoFast env video st = (video', st')"
  shows
    "video' = video\<lparr>rotation :=
        (case exiftool_rotation env (fs st) (srcPath video) of
           Inl e \<Rightarrow> rotation video | Inr r \<Rightarrow> r)\<rparr> \<and>
     (\<forall>cfg token serveVideoPath serveThumbPath user e.
        video = createVideoToTranscode cfg token serveVideoPath serveThumbPath user \<and>
        exiftool_rotation env (fs st) (srcPath video) = Inl e \<longrightarrow> rotation video' = 0) \<and>
     logs st' = logs st @
       [outcome_line (case exiftool_rotation env (fs st) (srcPath video) of
                        Inl e \<Rightarrow> Some e | Inr r \<Rightarrow> None)
          (srcPath video) ''Extract rotation'',
        outcome_line (fst (generateThumbnail env video' 0.3 st))
          (srcPath video) ''Generate thumbnail'',
        outcome_line (fst (transcodeVideo env video' QualityLow
                             (snd (generateThumbnail env video' 0.3 st))))
          (srcPath video) ''Transcode low-quality''] \<and>
     fst (generateThumbnail env video' 0.3 st) =
       (case avprobe_duration env (fs st) (srcPath video) of
          Inl e \<Rightarrow> Some e
        | Inr duration \<Rightarrow>
            (case avconv_thumbnail env (fs st) (srcPath video) (thumbDstPath video)
                    (duration * 0.3)
                    \<lparr>CompensateRotation = rotation video', Quality = QualityHigh,
                      ExtraArgs = []\<rparr> of
               (Some e, out) \<Rightarrow> Some e
             | (None, out) \<Rightarrow>
                 fst (Move (thumbDstPath video) (thumbServePath video) (owner video)
                        (put_output (thumbDstPath video) out (fs st))))) \<and>
     fst (transcodeVideo env video' QualityLow (snd (generateThumbnail env video' 0.3 st))) =
       (case avconv_transcode env (fs (snd (generateThumbnail env video' 0.3 st)))
               (srcPath video) (dstPath video)
               \<lparr>CompensateRotation = rotation video', Quality = QualityLow, ExtraArgs = []\<rparr> of
          (Some e, out) \<Rightarrow> Some e
        | (None, out) \<Rightarrow>
            fst (Move (dstPath video) (servePath video) (owner video)
                   (put_output (dstPath video) out
                      (fs (snd (generateThumbnail env video' 0.3 st)))))) \<and>
     fs st' = fs (snd (transcodeVideo env video' QualityLow
                         (snd (generateThumbnail env video' 0.3 st)))) \<and>
     (\<exists>thumbnail_calls.
        calls st' = calls st @ [CallExtractRotation (srcPath video)] @ thumbnail_calls @
          [CallTranscodeMP4 (srcPath video) (dstPath video)
             \<lparr>CompensateRotation = rotation video', Quality = QualityLow, ExtraArgs = []\<rparr>]) \<and>
     fastProcessQueue st' = fastProcessQueue st \<and>
     slowProcessQueue st' = snd (AddBlocking (slowProcessQueue st) (WorkSlow video')) \<and>
     WorkSlow video' \<in> set (buffer (work (slowProcessQueue st'))) \<union>
                        set (sendq (work (slowProcessQueue st')))"
proof -
  define r where "r = exiftool_rotation env (fs st) (srcPath video)"
  define st1 where "st1 = st\<lparr>calls := calls st @ [CallExtractRotation (srcPath video)]\<rparr>"
  define e1 where "e1 = (case r of Inl e \<Rightarrow> Some e | Inr _ \<Rightarrow> None)"
  define st2 where "st2 = logError e1 (srcPath video) ''Extract rotation'' st1"
  define video1 where "video1 = (case r of Inl e \<Rightarrow> video | Inr rot \<Rightarrow> video\<lparr>rotation := rot\<rparr>)"
  define e2 where "e2 = fst (generateThumbnail env video1 0.3 st2)"
  define st3 where "st3 = snd (generateThumbnail env video1 0.3 st2)"
  define st4 where "st4 = logError e2 (srcPath video1) ''Generate thumbnail'' st3"
  define e3 where "e3 = fst (transcodeVideo env video1 QualityLow st4)"
  define st5 where "st5 = snd (transcodeVideo env video1 QualityLow st4)"
  define st6 where "st6 = logError e3 (srcPath video1) ''Transcode low-quality'' st5"
  define sg where "sg = snd (generateThumbnail env video1 0.3 st)"
  have pv: "processVideoFast env video st =
      (video1, st6\<lparr>slowProcessQueue := snd (AddBlocking (slowProcessQueue st6) (WorkSlow video1))\<rparr>)"
    by (simp add: processVideoFast_def ExtractRotation_def Let_def split_beta r_def st1_def e1_def
        st2_def video1_def e2_def st3_def st4_def e3_def st5_def st6_def)
  then have v: "video' = video1"
    and s: "st' = st6\<lparr>slowProcessQueue := snd (AddBlocking (slowProcessQueue st6) (WorkSlow video1))\<rparr>"
    using assms by simp_all
  have src: "srcPath video1 = srcPath video" and dst: "dstPath video1 = dstPath video"
    and oth: "thumbDstPath video1 = thumbDstPath video" "thumbServePath video1 = thumbServePath video"
      "servePath video1 = servePath video" "owner video1 = owner video"
    by (simp_all add: video1_def split: sum.splits)
  have fs2: "fs st2 = fs st"
    by (simp add: st2_def st1_def)
  have e2: "e2 = fst (generateThumbnail env video1 0.3 st)"
    unfolding e2_def using fs2 by (rule generateThumbnail_fs_only)
  have fs4: "fs st4 = fs sg"
    unfolding st4_def st3_def sg_def using generateThumbnail_fs_only(2) [OF fs2] by simp
  have e3: "e3 = fst (transcodeVideo env video1 QualityLow sg)"
    unfolding e3_def using fs4 by (rule transcodeVideo_fs_only)
  have fs6: "fs st' = fs (snd (transcodeVideo env video1 QualityLow sg))"
    using transcodeVideo_fs_only(2) [OF fs4] by (simp add: s st6_def st5_def)
  note g = generateThumbnail_frame [of env video1 "0.3" st2, folded st3_def]
  note t = transcodeVideo_frame [of env video1 QualityLow st4, folded st5_def]
  obtain cs where cs: "calls st3 = calls st2 @ cs" using g by blast
  have 1: "video' = video\<lparr>rotation := (case r of Inl e \<Rightarrow> rotation video | Inr r \<Rightarrow> r)\<rparr>"
    by (simp add: v video1_def split: sum.splits)
  have 2: "rotation video' = 0"
    if "video = createVideoToTranscode cfg token serveVideoPath serveThumbPath user" "r = Inl e"
    for cfg token serveVideoPath serveThumbPath user e
    using that by (simp add: 1 createVideoToTranscode_def)
  have 3: "logs st' = logs st @
          [outcome_line e1 (srcPath video) ''Extract rotation'',
           outcome_line (fst (generateThumbnail env video' 0.3 st)) (srcPath video) ''Generate thumbnail'',
           outcome_line (fst (transcodeVideo env video' QualityLow
                             (snd (generateThumbnail env video' 0.3 st))))
             (srcPath video) ''Transcode low-quality'']"
    using g t
    by (simp add: s st6_def st4_def st2_def st1_def logError_outcome src e2 [symmetric]
        e3 [symmetric] v sg_def [symmetric])
  have 4: "fst (generateThumbnail env video' 0.3 st) =
       (case avprobe_duration env (fs st) (srcPath video) of
          Inl e \<Rightarrow> Some e
        | Inr duration \<Rightarrow>
            (case avconv_thumbnail env (fs st) (srcPath video) (thumbDstPath video)
                    (duration * 0.3)
                    \<lparr>CompensateRotation = rotation video', Quality = QualityHigh,
                      ExtraArgs = []\<rparr> of
               (Some e, out) \<Rightarrow> Some e
             | (None, out) \<Rightarrow>
                 fst (Move (thumbDstPath video) (thumbServePath video) (owner video)
                        (put_output (thumbDstPath video) out (fs st)))))"
    unfolding v generateThumbnail_outcome src oth by (rule refl)
  have 10: "fst (transcodeVideo env video' QualityLow (snd (generateThumbnail env video' 0.3 st))) =
       (case avconv_transcode env (fs (snd (generateThumbnail env video' 0.3 st)))
               (srcPath video) (dstPath video)
               \<lparr>CompensateRotation = rotation video', Quality = QualityLow, ExtraArgs = []\<rparr> of
          (Some e, out) \<Rightarrow> Some e
        | (None, out) \<Rightarrow>
            fst (Move (dstPath video) (servePath video) (owner video)
                   (put_output (dstPath video) out
                      (fs (snd (generateThumbnail env video' 0.3 st))))))"
    unfolding v transcodeVideo_outcome src dst oth by (rule refl)
  have 5: "calls st' = calls st @ [CallExtractRotation (srcPath video)] @ cs @
          [CallTranscodeMP4 (srcPath video) (dstPath video)
             \<lparr>CompensateRotation = rotation video', Quality = QualityLow, ExtraArgs = []\<rparr>]"
    using t cs by (simp add: s st6_def st4_def st2_def st1_def logError_outcome src dst v)
  have 6: "fastProcessQueue st' = fastProcessQueue st"
    using g t by (simp add: s st6_def st4_def st2_def st1_def logError_outcome)
  have q6: "slowProcessQueue st6 = slowProcessQueue st"
    using g t by (simp add: st6_def st4_def st2_def st1_def logError_outcome)
  have 7: "slowProcessQueue st' = snd (AddBlocking (slowProcessQueue st) (WorkSlow video'))"
    by (simp add: s q6 v)
  have 8: "WorkSlow video' \<in> set (buffer (work (slowProcessQueue st'))) \<union>
                        set (sendq (work (slowProcessQueue st')))"
    unfolding 7 by (rule AddBlocking_keeps_item)
  have 9: "fs st' = fs (snd (transcodeVideo env video' QualityLow
                         (snd (generateThumbnail env video' 0.3 st))))"
    using fs6 by (simp add: v sg_def)
  have 11: "\<exists>thumbnail_calls.
        calls st' = calls st @ [CallExtractRotation (srcPath video)] @ thumbnail_calls @
          [CallTranscodeMP4 (srcPath video) (dstPath video)
             \<lparr>CompensateRotation = rotation video', Quality = QualityLow, ExtraArgs = []\<rparr>]"
    using 5 by blast
  from 1 2 3 4 10 11 6 7 8 9 show ?thesis
    unfolding r_def [symmetric] e1_def [symmetric] by (intro conjI allI impI) auto
qed

theorem processVideoFast_fail_open_witness:
  "rotation (fst (processVideoFast
      \<lparr>exiftool_rotation = (\<lambda>w p. Inl (errorString ''exit status 1'')),
        avprobe_duration = (\<lambda>w p. Inr 10),
        avconv_transcode = (\<lambda>w src dst opts. (Some (errorString ''exit status 3''), None)),
        avconv_thumbnail = (\<lambda>w src dst t opts. (Some (errorString ''exit status 2''), None))\<rparr>
      (createVideoToTranscode
         \<lparr>tempBase = ''tmp'', serveBase = ''srv'', storageUri = ''http://h/s'', apiUri = ''http://h/api''\<rparr>
         ''v'' ''srv/v.mp4'' ''srv/v.jpg'' ''alice'')
      \<lparr>fs = \<lparr>files = [''tmp/v.src.mp4'' \<mapsto> ''raw'', ''srv/v.mp4.owner'' \<mapsto> ''alice'',
                          ''srv/v.jpg.owner'' \<mapsto> ''alice''], script = []\<rparr>,
        fastProcessQueue = New 4, slowProcessQueue = New 1, logs = [], calls = []\<rparr>)) = 0 \<and>
   buffer (work (slowProcessQueue (snd (processVideoFast
      \<lparr>exiftool_rotation = (\<lambda>w p. Inl (errorString ''exit status 1'')),
        avprobe_duration = (\<lambda>w p. Inr 10),
        avconv_transcode = (\<lambda>w src dst opts. (Some (errorString ''exit status 3''), None)),
        avconv_thumbnail = (\<lambda>w src dst t opts. (Some (errorString ''exit status 2''), None))\<rparr>
      (createVideoToTranscode
         \<lparr>tempBase = ''tmp'', serveBase = ''srv'', storageUri = ''http://h/s'', apiUri = ''http://h/api''\<rparr>
         ''v'' ''srv/v.mp4'' ''srv/v.jpg'' ''alice'')
      \<lparr>fs = \<lparr>files = [''tmp/v.src.mp4'' \<mapsto> ''raw'', ''srv/v.mp4.owner'' \<mapsto> ''alice'',
                          ''srv/v.jpg.owner'' \<mapsto> ''alice''], script = []\<rparr>,
        fastProcessQueue = New 4, slowProcessQueue = New 1, logs = [], calls = []\<rparr>)))) =
     [WorkSlow (createVideoToTranscode
         \<lparr>tempBase = ''tmp'', serveBase = ''srv'', storageUri = ''http://h/s'', apiUri = ''http://h/api''\<rparr>
         ''v'' ''srv/v.mp4'' ''srv/v.jpg'' ''alice'')] \<and>
   logs (snd (processVideoFast
      \<lparr>exiftool_rotation = (\<lambda>w p. Inl (errorString ''exit status 1'')),
        avprobe_duration = (\<lambda>w p. Inr 10),
        avconv_transcode = (\<lambda>w src dst opts. (Some (errorString ''exit status 3''), None)),
        avconv_thumbnail = (\<lambda>w src dst t opts. (Some (errorString ''exit status 2''), None))\<rparr>
      (createVideoToTranscode
         \<lparr>tempBase = ''tmp'', serveBase = ''srv'', storageUri = ''http://h/s'', apiUri = ''http://h/api''\<rparr>
         ''v'' ''srv/v.mp4'' ''srv/v.jpg'' ''alice'')
      \<lparr>fs = \<lparr>files = [''tmp/v.src.mp4'' \<mapsto> ''raw'', ''srv/v.mp4.owner'' \<mapsto> ''alice'',
                          ''srv/v.jpg.owner'' \<mapsto> ''alice''], script = []\<rparr>,
        fastProcessQueue = New 4, slowProcessQueue = New 1, logs = [], calls = []\<rparr>)) =
     [Failed ''tmp/v.src.mp4'' ''Extract rotation'' (errorString ''exit status 1''),
      Failed ''tmp/v.src.mp4'' ''Generate thumbnail'' (errorString ''exit status 2''),
      Failed ''tmp/v.src.mp4'' ''Transcode low-quality'' (errorString ''exit status 3'')]"
proof -
  let ?env = "\<lparr>exiftool_rotation = (\<lambda>w p. Inl (errorString ''exit status 1'')),
        avprobe_duration = (\<lambda>w p. Inr 10),
        avconv_transcode = (\<lambda>w src dst opts. (Some (errorString ''exit status 3''), None)),
        avconv_thumbnail = (\<lambda>w src dst t opts. (Some (errorString ''exit status 2''), None))\<rparr>"
  let ?cfg = "\<lparr>tempBase = ''tmp'', serveBase = ''srv'', storageUri = ''http://h/s'', apiUri = ''http://h/api''\<rparr>"
  let ?video = "createVideoToTranscode ?cfg ''v'' ''srv/v.mp4'' ''srv/v.jpg'' ''alice''"
  let ?st = "\<lparr>fs = \<lparr>files = [''tmp/v.src.mp4'' \<mapsto> ''raw'', ''srv/v.mp4.owner'' \<mapsto> ''alice'',
                          ''srv/v.jpg.owner'' \<mapsto> ''alice''], script = []\<rparr>,
        fastProcessQueue = New 4, slowProcessQueue = New 1, logs = [], calls = []\<rparr>"
  let ?res = "processVideoFast ?env ?video ?st"
  have pv: "?res = (fst ?res, snd ?res)" by simp
  note T = processVideoFast_fail_open [OF pv]
  have v: "fst ?res = ?video"
    using T [THEN conjunct1] by simp
  have src: "srcPath ?video = ''tmp/v.src.mp4''"
    by (simp add: createVideoToTranscode_def Join_def Clean_def clean_step_def)
  have rot: "rotation (fst ?res) = 0"
    unfolding v by (simp add: createVideoToTranscode_def)
  have g: "fst (generateThumbnail ?env (fst ?res) 0.3 ?st) = Some (errorString ''exit status 2'')"
    using T [THEN conjunct2, THEN conjunct2, THEN conjunct2, THEN conjunct1] by simp
  have t: "fst (transcodeVideo ?env (fst ?res) QualityLow
                  (snd (generateThumbnail ?env (fst ?res) 0.3 ?st))) =
             Some (errorString ''exit status 3'')"
    using T [THEN conjunct2, THEN conjunct2, THEN conjunct2, THEN conjunct2, THEN conjunct1]
    by simp
  have l: "logs (snd ?res) =
     [Failed ''tmp/v.src.mp4'' ''Extract rotation'' (errorString ''exit status 1''),
      Failed ''tmp/v.src.mp4'' ''Generate thumbnail'' (errorString ''exit status 2''),
      Failed ''tmp/v.src.mp4'' ''Transcode low-quality'' (errorString ''exit status 3'')]"
    using T [THEN conjunct2, THEN conjunct2, THEN conjunct1]
    unfolding g t src by (simp add: outcome_line_def)
  have q: "slowProcessQueue (snd ?res) = snd (AddBlocking (slowProcessQueue ?st) (WorkSlow (fst ?res)))"
    using T by blast
  have b: "buffer (work (slowProcessQueue (snd ?res))) = [WorkSlow ?video]"
    unfolding q v by (simp add: AddBlocking_def chan_send_def New_def make_chan_def)
  from rot b l show ?thesis by (intro conjI)
qed


section \<open>The rollback of an upload\<close>

subsection \<open>The paths of a job are apart\<close>

lemma plain_token_ext:
  assumes "CHR ''/'' \<notin> set token" and "CHR ''/'' \<notin> set ext" and "3 \<le> length ext"
  shows "plain (token @ ext)"
proof -
  have "length (token @ ext) \<ge> 3" using assms(3) by simp
  then have "token @ ext \<noteq> []" "token @ ext \<noteq> ''.''" "token @ ext \<noteq> ''..''"
    by (metis length_0_conv not_numeral_le_zero, auto dest!: arg_cong [where f = length])
  then show ?thesis using assms by (simp add: plain_def)
qed

lemma Join_ends:
  assumes "plain name"
  shows "\<exists>pre. Join [d, name] = pre @ name"
proof (cases "d = []")
  case True
  then show ?thesis using assms by (simp add: Join_def Clean_plain plain_def)
next
  case False
  then have "Join [d, name] = Clean (d @ CHR ''/'' # name)"
    using assms by (simp add: Join_def plain_def)
  then show ?thesis using Clean_dir_name [OF assms False] by auto
qed

lemma Join_last:
  assumes "plain name"
  shows "last (Join [d, name]) = last name"
proof -
  obtain pre where "Join [d, name] = pre @ name" using Join_ends [OF assms] by blast
  moreover have "name \<noteq> []" using assms by (simp add: plain_def)
  ultimately show ?thesis by simp
qed

lemma getOwnerPath_last: "last (getOwnerPath p) = CHR ''r''"
  by (simp add: getOwnerPath_def)

lemma job_paths:
  assumes "CHR ''/'' \<notin> set token"
    and "video = createVideoToTranscode cfg token (Join [serveBase cfg, token @ ''.mp4''])
           (Join [serveBase cfg, token @ ''.jpg'']) user"
  shows "servePath video \<noteq> thumbServePath video"
    and "dlPath video \<noteq> getOwnerPath (servePath video)"
    and "dlPath video \<noteq> getOwnerPath (thumbServePath video)"
    and "srcPath video \<noteq> getOwnerPath (servePath video)"
    and "srcPath video \<noteq> getOwnerPath (thumbServePath video)"
    and "servePath video \<noteq> getOwnerPath (thumbServePath video)"
    and "thumbServePath video \<noteq> getOwnerPath (servePath video)"
proof -
  have p: "plain (token @ ''.mp4'')" "plain (token @ ''.jpg'')" "plain (token @ ''.dl.mp4'')"
    "plain (token @ ''.src.mp4'')"
    using assms(1) by (simp_all add: plain_token_ext)
  have l: "last (servePath video) = CHR ''4''" "last (thumbServePath video) = CHR ''g''"
    "last (dlPath video) = CHR ''4''" "last (srcPath video) = CHR ''4''"
    by (simp_all add: assms(2) createVideoToTranscode_def Join_last p)
  show "servePath video \<noteq> thumbServePath video" using l by auto
  show "dlPath video \<noteq> getOwnerPath (servePath video)"
    using l getOwnerPath_last [of "servePath video"] by auto
  show "dlPath video \<noteq> getOwnerPath (thumbServePath video)"
    using l getOwnerPath_last [of "thumbServePath video"] by auto
  show "srcPath video \<noteq> getOwnerPath (servePath video)"
    using l getOwnerPath_last [of "servePath video"] by auto
  show "srcPath video \<noteq> getOwnerPath (thumbServePath video)"
    using l getOwnerPath_last [of "thumbServePath video"] by auto
  show "servePath video \<noteq> getOwnerPath (thumbServePath video)"
    using l getOwnerPath_last [of "thumbServePath video"] by auto
  show "thumbServePath video \<noteq> getOwnerPath (servePath video)"
    using l getOwnerPath_last [of "servePath video"] by auto
qed

subsection \<open>A quiet world stays quiet\<close>

lemma quiet_pending: "quiet w \<Longrightarrow> pending w = Succeeds"
  by (cases "script w") (simp_all add: quiet_def pending_def)

lemma quiet_advance [simp]: "quiet w \<Longrightarrow> quiet (advance w)"
  by (cases "script w") (simp_all add: quiet_def advance_def)

lemma quiet_files_update [simp]: "quiet (w\<lparr>files := f\<rparr>) = quiet w"
  by (simp add: quiet_def)

lemma quiet_os_Create: "quiet w \<Longrightarrow> quiet (snd (os_Create p w)) \<and> fst (os_Create p w) = None"
  by (simp add: os_Create_def quiet_pending)

lemma quiet_File_WriteString:
  "quiet w \<Longrightarrow> quiet (snd (File_WriteString p s w)) \<and> fst (File_WriteString p s w) = None"
  by (simp add: File_WriteString_def quiet_pending)

lemma quiet_File_Close: "quiet w \<Longrightarrow> quiet (snd (File_Close p w)) \<and> fst (File_Close p w) = None"
  by (simp add: File_Close_def quiet_pending)

lemma quiet_os_Remove: "quiet w \<Longrightarrow> quiet (snd (os_Remove p w))"
  by (simp add: os_Remove_def quiet_pending split: option.splits)

lemma quiet_os_Rename: "quiet w \<Longrightarrow> quiet (snd (os_Rename src dst w))"
  by (simp add: os_Rename_def quiet_pending split: option.splits)

lemma quiet_Create: "quiet w \<Longrightarrow> quiet (snd (Create p user w))"
  by (auto simp: Create_def unsafeCreateOwner_def Let_def quiet_os_Create quiet_File_WriteString
      quiet_File_Close quiet_os_Remove split: option.splits prod.splits
      dest!: arg_cong [where f = snd])

lemma quiet_Delete: "quiet w \<Longrightarrow> quiet (snd (Delete p user w))"
  by (auto simp: Delete_def quiet_os_Remove split: option.splits prod.splits
      dest!: arg_cong [where f = snd])

lemma quiet_io_Copy: "quiet w \<Longrightarrow> quiet (snd (io_Copy p bytes e w))"
  using quiet_File_WriteString [of w p bytes]
  by (auto simp: io_Copy_def split: prod.splits option.splits)


subsection \<open>Removals only take files away\<close>

lemma os_Remove_gone:
  "files w x = None \<Longrightarrow> files (snd (os_Remove p w)) x = None"
  by (simp add: os_Remove_files)

lemma os_Remove_success_gone:
  "fst (os_Remove p w) = None \<Longrightarrow> files (snd (os_Remove p w)) p = None"
  by (simp add: os_Remove_files)

lemma Delete_gone:
  "files w x = None \<Longrightarrow> files (snd (Delete p user w)) x = None"
  by (auto simp: Delete_def os_Remove_files split: option.splits prod.splits
      dest!: arg_cong [where f = snd])

lemma Delete_success_gone:
  assumes "fst (Delete p user w) = None"
  shows "files (snd (Delete p user w)) (getOwnerPath p) = None \<and> files (snd (Delete p user w)) p = None"
  using assms
  by (auto simp: Delete_def unsafeCheckOwner_cases os_Remove_def os_IsNotExist_def
      split: option.splits outcome.splits if_splits)

lemma Delete_frame:
  "x \<noteq> p \<Longrightarrow> x \<noteq> getOwnerPath p \<Longrightarrow> files (snd (Delete p user w)) x = files w x"
  by (auto simp: Delete_def os_Remove_files split: option.splits prod.splits
      dest!: arg_cong [where f = snd])

lemma quiet_os_Remove_present:
  "quiet w \<Longrightarrow> files w p = Some bytes \<Longrightarrow> fst (os_Remove p w) = None"
  by (simp add: os_Remove_def quiet_pending)

lemma quiet_Delete_owned:
  assumes "quiet w" and "files w (getOwnerPath p) = Some user"
  shows "fst (Delete p user w) = None"
proof -
  have c: "unsafeCheckOwner p user w = None" using assms(2) by (simp add: unsafeCheckOwner_cases)
  have q1: "quiet (snd (os_Remove p w))" using assms(1) by (rule quiet_os_Remove)
  have m: "files (snd (os_Remove p w)) (getOwnerPath p) = Some user"
    using assms(2) by (simp add: os_Remove_files)
  have t: "fst (os_Remove p w) = None \<or> os_IsNotExist (fst (os_Remove p w))"
    using assms(1) by (simp add: os_Remove_def quiet_pending os_IsNotExist_def split: option.splits)
  show ?thesis
    using t quiet_os_Remove_present [OF q1 m]
    by (auto simp: Delete_def c split_beta)
qed


subsection \<open>From the rename on\<close>

lemma uploadHandler_process_unfold:
  fixes r user video title st
  defines "w1 \<equiv> snd (os_Rename (dlPath video) (srcPath video) (fs st))"
    and "e0 \<equiv> fst (os_Rename (dlPath video) (srcPath video) (fs st))"
  defines "e1 \<equiv> fst (os_Remove (srcPath video) w1)"
    and "w2 \<equiv> snd (os_Remove (srcPath video) w1)"
  defines "e2 \<equiv> fst (Delete (servePath video) user w2)"
    and "w3 \<equiv> snd (Delete (servePath video) user w2)"
  defines "e3 \<equiv> fst (Delete (thumbServePath video) user w3)"
    and "w4 \<equiv> snd (Delete (thumbServePath video) user w3)"
  assumes "e0 = None"
    and "\<not> length (buffer (work (fastProcessQueue st))) < capacity (work (fastProcessQueue st))"
  shows "uploadHandler_process r user video title st =
     ((StatusServiceUnavailable, Some (errorString ''Process queue full''), NoReply),
      st\<lparr>fs := w4,
         logs := logs st @
           [Message (srcPath video @ '': Downloaded video data''),
            Message (srcPath video @ '': Process queue full: cancelling processsing''),
            outcome_line e1 (srcPath video) ''Delete source file'',
            outcome_line e2 (srcPath video) ''Delete serve video file'',
            outcome_line e3 (srcPath video) ''Delete serve thumbnail file'']\<rparr>)"
  using assms(9,10)
  unfolding e0_def
  by (simp add: uploadHandler_process_def Let_def split_beta on_fs_def AddIfSpace_cases
      logError_outcome log_Printf_def w1_def e1_def w2_def e2_def w3_def e3_def w4_def)

lemma uploadHandler_process_status:
  "fst (fst (uploadHandler_process r user video title st)) = StatusServiceUnavailable \<longleftrightarrow>
     fst (os_Rename (dlPath video) (srcPath video) (fs st)) = None \<and>
     \<not> length (buffer (work (fastProcessQueue st))) < capacity (work (fastProcessQueue st))"
  by (auto simp: uploadHandler_process_def Let_def split_beta on_fs_def AddIfSpace_cases
      log_Printf_def split: option.splits)

lemma uploadHandler_process_full:
  assumes "\<not> length (buffer (work (fastProcessQueue st))) < capacity (work (fastProcessQueue st))"
  shows "fst (fst (uploadHandler_process r user video title st))
           \<in> {StatusInternalServerError, StatusServiceUnavailable}"
  using assms
  by (auto simp: uploadHandler_process_def Let_def split_beta on_fs_def AddIfSpace_cases
      log_Printf_def split: option.splits)


lemma rollback_removes:
  fixes user video w1
  defines "e1 \<equiv> fst (os_Remove (srcPath video) w1)"
    and "w2 \<equiv> snd (os_Remove (srcPath video) w1)"
  defines "e2 \<equiv> fst (Delete (servePath video) user w2)"
    and "w3 \<equiv> snd (Delete (servePath video) user w2)"
  defines "e3 \<equiv> fst (Delete (thumbServePath video) user w3)"
    and "w4 \<equiv> snd (Delete (thumbServePath video) user w3)"
  shows "(e1 = None \<longrightarrow> files w4 (srcPath video) = None) \<and>
         (e2 = None \<longrightarrow> files w4 (getOwnerPath (servePath video)) = None \<and>
                          files w4 (servePath video) = None) \<and>
         (e3 = None \<longrightarrow> files w4 (getOwnerPath (thumbServePath video)) = None \<and>
                          files w4 (thumbServePath video) = None)"
proof -
  have 1: "files w4 (srcPath video) = None" if "e1 = None"
  proof -
    have "files w2 (srcPath video) = None"
      using that unfolding e1_def w2_def by (rule os_Remove_success_gone)
    then show ?thesis unfolding w4_def w3_def by (intro Delete_gone)
  qed
  have 2: "files w4 (getOwnerPath (servePath video)) = None \<and> files w4 (servePath video) = None"
    if "e2 = None"
  proof -
    have "files w3 (getOwnerPath (servePath video)) = None \<and> files w3 (servePath video) = None"
      using that unfolding e2_def w3_def by (rule Delete_success_gone)
    then show ?thesis unfolding w4_def by (simp add: Delete_gone)
  qed
  have 3: "files w4 (getOwnerPath (thumbServePath video)) = None \<and>
           files w4 (thumbServePath video) = None" if "e3 = None"
    using that unfolding e3_def w4_def by (rule Delete_success_gone)
  from 1 2 3 show ?thesis by blast
qed

lemma rollback_quiet:
  fixes user video w0
  defines "w1 \<equiv> snd (os_Rename (dlPath video) (srcPath video) w0)"
  defines "e1 \<equiv> fst (os_Remove (srcPath video) w1)"
    and "w2 \<equiv> snd (os_Remove (srcPath video) w1)"
  defines "e2 \<equiv> fst (Delete (servePath video) user w2)"
    and "w3 \<equiv> snd (Delete (servePath video) user w2)"
  defines "e3 \<equiv> fst (Delete (thumbServePath video) user w3)"
  assumes q: "quiet w0" and r: "fst (os_Rename (dlPath video) (srcPath video) w0) = None"
    and ms: "files w0 (getOwnerPath (servePath video)) = Some user"
    and mt: "files w0 (getOwnerPath (thumbServePath video)) = Some user"
    and apart: "servePath video \<noteq> thumbServePath video"
      "dlPath video \<noteq> getOwnerPath (servePath video)"
      "dlPath video \<noteq> getOwnerPath (thumbServePath video)"
      "srcPath video \<noteq> getOwnerPath (servePath video)"
      "srcPath video \<noteq> getOwnerPath (thumbServePath video)"
      "servePath video \<noteq> getOwnerPath (thumbServePath video)"
  shows "e1 = None \<and> e2 = None \<and> e3 = None"
proof -
  have q1: "quiet w1" unfolding w1_def using q by (rule quiet_os_Rename)
  have f1: "files w1 x = files w0 x" if "x \<noteq> dlPath video" "x \<noteq> srcPath video" for x
    unfolding w1_def using that by (simp add: os_Rename_frame)
  obtain bytes where s1: "files w1 (srcPath video) = Some bytes"
    using r unfolding w1_def
    by (auto simp: os_Rename_def split: outcome.splits option.splits)
  have e1: "e1 = None" unfolding e1_def using q1 s1 by (rule quiet_os_Remove_present)
  have q2: "quiet w2" unfolding w2_def using q1 by (rule quiet_os_Remove)
  have f2: "files w2 x = files w0 x" if "x \<noteq> dlPath video" "x \<noteq> srcPath video" for x
    unfolding w2_def using that f1 by (simp add: os_Remove_files)
  have "files w2 (getOwnerPath (servePath video)) = Some user"
    using f2 [of "getOwnerPath (servePath video)"] ms apart by auto
  then have e2: "e2 = None" unfolding e2_def using q2 by (intro quiet_Delete_owned)
  have q3: "quiet w3" unfolding w3_def using q2 by (rule quiet_Delete)
  have "files w3 (getOwnerPath (thumbServePath video)) = files w2 (getOwnerPath (thumbServePath video))"
    unfolding w3_def using apart by (intro Delete_frame) auto
  then have "files w3 (getOwnerPath (thumbServePath video)) = Some user"
    using f2 [of "getOwnerPath (thumbServePath video)"] mt apart by auto
  then have e3: "e3 = None" unfolding e3_def using q3 by (intro quiet_Delete_owned)
  from e1 e2 e3 show ?thesis by blast
qed


subsection \<open>The reservation\<close>

declare uploadHandler_reserve.simps [simp del]

lemma on_fs_result:
  "on_fs f st = (x, st1) \<Longrightarrow> x = fst (f (fs st)) \<and> st1 = st\<lparr>fs := snd (f (fs st))\<rparr>"
  by (auto simp: on_fs_def split: prod.splits)

lemma uploadHandler_reserve_result:
  assumes "uploadHandler_reserve cfg user rand_Read try st = (res, st1)"
  shows "fastProcessQueue st1 = fastProcessQueue st \<and>
         (quiet (fs st) \<longrightarrow> quiet (fs st1)) \<and>
         (\<forall>status e. res = Inl (status, e) \<longrightarrow> status = StatusInternalServerError) \<and>
         (\<forall>video. res = Inr (Some video) \<longrightarrow>
            (\<exists>token k. k < 10 \<and> generateToken (rand_Read k) = Inr token \<and>
               video = createVideoToTranscode cfg token (Join [serveBase cfg, token @ ''.mp4''])
                         (Join [serveBase cfg, token @ ''.jpg'']) user \<and>
               files (fs st1) (getOwnerPath (servePath video)) = Some user \<and>
               files (fs st1) (getOwnerPath (thumbServePath video)) = Some user))"
  using assms
proof (induction "10 - try" arbitrary: "try" st res st1)
  case 0
  then have "\<not> try < 10" by simp
  then have "res = Inr None" "st1 = st"
    using "0.prems" by (simp_all add: uploadHandler_reserve.simps [of cfg user rand_Read "try" st])
  then show ?case by simp
next
  case (Suc n)
  then have lt: "try < 10" and n: "n = 10 - (try + 1)" by simp_all
  note eq = Suc.prems [unfolded uploadHandler_reserve.simps [of cfg user rand_Read "try" st]]
  show ?case
  proof (cases "generateToken (rand_Read try)")
    case (Inl err)
    then have "res = Inl (StatusInternalServerError, err)" "st1 = st"
      using eq lt by simp_all
    then show ?thesis by simp
  next
    case (Inr token)
    define sv where "sv = Join [serveBase cfg, token @ ''.mp4'']"
    define stp where "stp = Join [serveBase cfg, token @ ''.jpg'']"
    define video where "video = createVideoToTranscode cfg token sv stp user"
    have slash: "CHR ''/'' \<notin> set token" using Inr by (rule generateToken_no_slash)
    have vp: "servePath video = sv" "thumbServePath video = stp"
      by (simp_all add: video_def createVideoToTranscode_def)
    have apart: "sv \<noteq> stp"
      using job_paths(1) [OF slash, of video cfg user] vp by (simp add: video_def sv_def stp_def)
    define wa where "wa = snd (Create sv user (fs st))"
    define sta where "sta = st\<lparr>fs := wa\<rparr>"
    have qa: "quiet (fs st) \<longrightarrow> quiet wa" unfolding wa_def by (simp add: quiet_Create)
    show ?thesis
    proof (cases "fst (Create sv user (fs st))")
      case (Some err)
      then have rec: "uploadHandler_reserve cfg user rand_Read (try + 1)
          (log_Printf (MessageError ''Failed to create video: '' err) sta) = (res, st1)"
        using eq lt Inr
        by (simp add: Let_def on_fs_def split_beta sv_def [symmetric] sta_def wa_def)
      from Suc.hyps(1) [OF n rec] qa show ?thesis by (simp add: sta_def)
    next
      case None
      then have ma: "files wa (getOwnerPath sv) = Some user"
        using unsafeCreateOwner_success [of sv user "fs st" wa]
        by (simp add: wa_def Create_def prod_eq_iff)
      define wb where "wb = snd (Create stp user wa)"
      define stb where "stb = sta\<lparr>fs := wb\<rparr>"
      have qb: "quiet (fs st) \<longrightarrow> quiet wb" unfolding wb_def using qa by (simp add: quiet_Create)
      have mb: "files wb (getOwnerPath sv) = Some user"
        using ma apart unsafeCreateOwner_frame [of "getOwnerPath sv" stp user wa]
        by (simp add: wb_def Create_def)
      show ?thesis
      proof (cases "fst (Create stp user wa)")
        case None
        then have "files wb (getOwnerPath stp) = Some user"
          using unsafeCreateOwner_success [of stp user wa wb]
          by (simp add: wb_def Create_def prod_eq_iff)
        moreover have "res = Inr (Some video)" "st1 = stb"
          using eq lt Inr None \<open>fst (Create sv user (fs st)) = None\<close>
          by (simp_all add: Let_def on_fs_def split_beta sv_def [symmetric] stp_def [symmetric]
              sta_def wa_def stb_def wb_def video_def)
        ultimately show ?thesis
          using qb mb lt Inr vp
          by (auto simp: stb_def sta_def video_def sv_def stp_def intro!: exI [of _ token] exI [of _ "try"])
      next
        case (Some err)
        define stc where "stc = log_Printf (MessageError ''Failed to create thumbnail: '' err) stb"
        define wd where "wd = snd (Delete sv user wb)"
        define std where "std = stc\<lparr>fs := wd\<rparr>"
        have qd: "quiet (fs st) \<longrightarrow> quiet wd" unfolding wd_def using qb by (simp add: quiet_Delete)
        have "\<exists>st'. uploadHandler_reserve cfg user rand_Read (try + 1) st' = (res, st1) \<and>
            fastProcessQueue st' = fastProcessQueue st \<and> fs st' = wd"
        proof (cases "fst (Delete sv user wb)")
          case None
          then have "uploadHandler_reserve cfg user rand_Read (try + 1) std = (res, st1)"
            using eq lt Inr Some \<open>fst (Create sv user (fs st)) = None\<close>
            by (simp add: Let_def on_fs_def split_beta sv_def [symmetric] stp_def [symmetric]
                sta_def wa_def stb_def wb_def stc_def std_def wd_def log_Printf_def)
          then show ?thesis by (auto simp: std_def stc_def stb_def sta_def)
        next
          case (Some err')
          then have "uploadHandler_reserve cfg user rand_Read (try + 1)
              (log_Printf (MessageError ''Failed to remove video: '' err') std) = (res, st1)"
            using eq lt Inr \<open>fst (Create stp user wa) = Some err\<close>
              \<open>fst (Create sv user (fs st)) = None\<close>
            by (simp add: Let_def on_fs_def split_beta sv_def [symmetric] stp_def [symmetric]
                sta_def wa_def stb_def wb_def stc_def std_def wd_def log_Printf_def)
          then show ?thesis by (auto simp: std_def stc_def stb_def sta_def)
        qed
        then obtain st' where rec: "uploadHandler_reserve cfg user rand_Read (try + 1) st' = (res, st1)"
          and q': "fastProcessQueue st' = fastProcessQueue st" and f': "fs st' = wd" by blast
        from Suc.hyps(1) [OF n rec] qd q' f' show ?thesis by simp
      qed
    qed
  qed
qed


subsection \<open>The download\<close>

lemma io_Copy_frame: "x \<noteq> p \<Longrightarrow> files (snd (io_Copy p bytes e w)) x = files w x"
  using File_WriteString_frame [of x p bytes w]
  by (auto simp: io_Copy_def split: prod.splits option.splits)

lemma uploadHandler_parts_frame:
  assumes "uploadHandler_parts video events title didDownload st = (res, st1)"
  shows "fastProcessQueue st1 = fastProcessQueue st \<and>
         (quiet (fs st) \<longrightarrow> quiet (fs st1)) \<and>
         (\<forall>x. x \<noteq> dlPath video \<longrightarrow> files (fs st1) x = files (fs st) x) \<and>
         (\<forall>status e. res = Inl (status, e) \<longrightarrow>
            status = StatusBadRequest \<or> status = StatusInternalServerError)"
  using assms
proof (induction events arbitrary: title didDownload st)
  case Nil
  then show ?case by auto
next
  case (Cons event events)
  show ?case
  proof (cases event)
    case (NextPartError err)
    then show ?thesis using Cons.prems by auto
  next
    case (NextPart part)
    show ?thesis
    proof (cases "FormName part = ''video''")
      case False
      then show ?thesis using Cons.IH [of title didDownload st] Cons.prems NextPart by simp
    next
      case True
      define st0 where "st0 = log_Printf (Message (srcPath video @ '': Downloading '' @ FormName part
          @ ''='' @ FileName part @ '' ('' @ part_Content_Type part @ '')'')) st"
      define w where "w = snd (io_Copy (dlPath video) (part_bytes part) (part_error part) (fs st))"
      have qw: "quiet (fs st) \<longrightarrow> quiet w" unfolding w_def by (simp add: quiet_io_Copy)
      have fw: "x \<noteq> dlPath video \<Longrightarrow> files w x = files (fs st) x" for x
        unfolding w_def by (simp add: io_Copy_frame)
      show ?thesis
      proof (cases "fst (io_Copy (dlPath video) (part_bytes part) (part_error part) (fs st))")
        case (Some err)
        then have "res = Inl (StatusInternalServerError, err)" "st1 = st0\<lparr>fs := w\<rparr>"
          using Cons.prems NextPart True
          by (simp_all add: Let_def on_fs_def split_beta st0_def w_def)
        then show ?thesis using qw fw by (simp add: st0_def)
      next
        case None
        then have "uploadHandler_parts video events (FileName part) True (st0\<lparr>fs := w\<rparr>) = (res, st1)"
          using Cons.prems NextPart True
          by (simp add: Let_def on_fs_def split_beta st0_def w_def)
        from Cons.IH [OF this] qw fw show ?thesis by (simp add: st0_def)
      qed
    qed
  qed
qed

lemma uploadHandler_download_frame:
  assumes "uploadHandler_download r video st = (res, st1)"
  shows "fastProcessQueue st1 = fastProcessQueue st \<and>
         (quiet (fs st) \<longrightarrow> quiet (fs st1)) \<and>
         (\<forall>x. x \<noteq> dlPath video \<longrightarrow> files (fs st1) x = files (fs st) x) \<and>
         (\<forall>status e. res = Inl (status, e) \<longrightarrow>
            status = StatusBadRequest \<or> status = StatusInternalServerError)"
proof (cases "HasPrefix (Content_Type r) ''multipart/''")
  case False
  define w where "w = snd (io_Copy (dlPath video) (Body r) (Body_error r) (fs st))"
  have qw: "quiet (fs st) \<longrightarrow> quiet w" unfolding w_def by (simp add: quiet_io_Copy)
  have fw: "x \<noteq> dlPath video \<Longrightarrow> files w x = files (fs st) x" for x
    unfolding w_def by (simp add: io_Copy_frame)
  have "fs st1 = w \<and> fastProcessQueue st1 = fastProcessQueue st \<and>
      (\<forall>status e. res = Inl (status, e) \<longrightarrow> status = StatusInternalServerError)"
    using assms False
    by (auto simp: uploadHandler_download_def Let_def on_fs_def split_beta w_def
        split: option.splits)
  then show ?thesis using qw fw by auto
next
  case True
  define st0 where "st0 = log_Printf (Message (srcPath video @ '': Found multipart data'')) st"
  show ?thesis
  proof (cases "MultipartReader r")
    case (Inl err)
    then show ?thesis
      using assms True by (auto simp: uploadHandler_download_def Let_def)
  next
    case (Inr reader)
    obtain pres stp where p: "uploadHandler_parts video reader [] False st0 = (pres, stp)"
      by (cases "uploadHandler_parts video reader [] False st0")
    note f = uploadHandler_parts_frame [OF p]
    have "st1 = stp \<and> (\<forall>status e. res = Inl (status, e) \<longrightarrow>
        pres = Inl (status, e) \<or> status = StatusInternalServerError)"
      using assms True Inr p
      by (auto simp: uploadHandler_download_def Let_def st0_def split: sum.splits if_splits)
    then show ?thesis using f by (auto simp: st0_def)
  qed
qed


subsection \<open>The handler\<close>

lemma uploadHandler_answers:
  assumes "uploadHandler cfg r user rand_Read st = ((status, err, rep), st')"
  shows
    "(\<not> length (buffer (work (fastProcessQueue st))) < capacity (work (fastProcessQueue st)) \<longrightarrow>
        status = StatusBadRequest \<or> status = StatusInternalServerError \<or>
        status = StatusServiceUnavailable) \<and>
     (status = StatusServiceUnavailable \<longrightarrow>
        (\<exists>token k video st1 st3 title st4.
           k < 10 \<and> generateToken (rand_Read k) = Inr token \<and>
           video = createVideoToTranscode cfg token (Join [serveBase cfg, token @ ''.mp4''])
                     (Join [serveBase cfg, token @ ''.jpg'']) user \<and>
           uploadHandler_reserve cfg user rand_Read 0 st = (Inr (Some video), st1) \<and>
           on_fs (os_Create (dlPath video))
             (log_Printf (Message (srcPath video @ '': Created owned file'')) st1) = (None, st3) \<and>
           uploadHandler_download r video st3 = (Inr title, st4) \<and>
           fst (os_Rename (dlPath video) (srcPath video) (fs st4)) = None \<and>
           \<not> fst (AddIfSpace (fastProcessQueue st4) (WorkFast video))))"
proof -
  let ?room = "\<lambda>s. length (buffer (work (fastProcessQueue s))) < capacity (work (fastProcessQueue s))"
  obtain rres st1 where res: "uploadHandler_reserve cfg user rand_Read 0 st = (rres, st1)"
    by (cases "uploadHandler_reserve cfg user rand_Read 0 st")
  note R = uploadHandler_reserve_result [OF res]
  note eq = assms [unfolded uploadHandler_def res]
  show ?thesis
  proof (cases rres)
    case (Inl failure)
    then obtain s e where "failure = (s, e)" by (cases failure)
    then have "status = StatusInternalServerError" using eq Inl R by auto
    then show ?thesis by simp
  next
    case (Inr vopt)
    show ?thesis
    proof (cases vopt)
      case None
      then have "status = StatusInternalServerError" using eq Inr by simp
      then show ?thesis by simp
    next
      case (Some video)
      obtain token k where k: "k < 10" and g: "generateToken (rand_Read k) = Inr token"
        and v: "video = createVideoToTranscode cfg token (Join [serveBase cfg, token @ ''.mp4''])
                         (Join [serveBase cfg, token @ ''.jpg'']) user"
        using R Inr Some by blast
      have res': "uploadHandler_reserve cfg user rand_Read 0 st = (Inr (Some video), st1)"
        using res Inr Some by simp
      have q1: "fastProcessQueue st1 = fastProcessQueue st"
        using R by simp
      define st2 where "st2 = log_Printf (Message (srcPath video @ '': Created owned file'')) st1"
      define wc where "wc = snd (os_Create (dlPath video) (fs st1))"
      define st3 where "st3 = st2\<lparr>fs := wc\<rparr>"
      show ?thesis
      proof (cases "fst (os_Create (dlPath video) (fs st1))")
        case (Some e)
        then have h: "on_fs (os_Create (dlPath video)) st2 = (Some e, st3)"
          by (simp add: on_fs_def split_beta st3_def wc_def st2_def prod_eq_iff)
        have "status = StatusInternalServerError"
          using eq Inr \<open>vopt = Some video\<close>
          by (simp add: Let_def st2_def [symmetric] h)
        then show ?thesis by simp
      next
        case None
        have h: "on_fs (os_Create (dlPath video)) st2 = (None, st3)"
          using None by (simp add: on_fs_def split_beta st3_def wc_def st2_def prod_eq_iff)
        obtain dres st4 where d: "uploadHandler_download r video st3 = (dres, st4)"
          by (cases "uploadHandler_download r video st3")
        note D = uploadHandler_download_frame [OF d]
        have q4: "fastProcessQueue st4 = fastProcessQueue st"
          using D q1 by (simp add: st3_def st2_def)
        have eq': "(case (case dres of
                           Inl (status, err) \<Rightarrow> ((status, Some err, NoReply), st4)
                         | Inr title \<Rightarrow> uploadHandler_process r user video title st4) of
                     (answer, st5) \<Rightarrow>
                       (answer, snd (on_fs (File_Close (dlPath video)) st5))) =
                   ((status, err, rep), st')"
          using eq Inr \<open>vopt = Some video\<close>
          by (simp add: Let_def st2_def [symmetric] h d)
        show ?thesis
        proof (cases dres)
          case (Inl failure)
          then obtain s e where "failure = (s, e)" by (cases failure)
          then have "status = StatusBadRequest \<or> status = StatusInternalServerError"
            using eq' Inl D by auto
          then show ?thesis by auto
        next
          case (Inr title)
          obtain st5 where p: "uploadHandler_process r user video title st4 = ((status, err, rep), st5)"
            using eq' Inr by (auto split: prod.splits)
          have full: "status = StatusBadRequest \<or> status = StatusInternalServerError \<or>
              status = StatusServiceUnavailable" if "\<not> ?room st"
            using uploadHandler_process_full [of st4 r user video title] that p q4 by auto
          have reached: "fst (os_Rename (dlPath video) (srcPath video) (fs st4)) = None \<and>
              \<not> fst (AddIfSpace (fastProcessQueue st4) (WorkFast video))"
            if "status = StatusServiceUnavailable"
            using uploadHandler_process_status [of r user video title st4] p that
            by (simp add: AddIfSpace_cases)
          have d': "uploadHandler_download r video st3 = (Inr title, st4)"
            using d Inr by simp
          show ?thesis
            using full reached k g v res' h [unfolded st2_def] d' by blast
        qed
      qed
    qed
  qed
qed

lemma uploadHandler_rollback:
  fixes cfg r user rand_Read st video st1 st3 title st4
  defines "w1 \<equiv> snd (os_Rename (dlPath video) (srcPath video) (fs st4))"
  defines "e1 \<equiv> fst (os_Remove (srcPath video) w1)"
    and "w2 \<equiv> snd (os_Remove (srcPath video) w1)"
  defines "e2 \<equiv> fst (Delete (servePath video) user w2)"
    and "w3 \<equiv> snd (Delete (servePath video) user w2)"
  defines "e3 \<equiv> fst (Delete (thumbServePath video) user w3)"
    and "w4 \<equiv> snd (Delete (thumbServePath video) user w3)"
  assumes run: "uploadHandler cfg r user rand_Read st = ((status, err, rep), st')"
    and res: "uploadHandler_reserve cfg user rand_Read 0 st = (Inr (Some video), st1)"
    and cr: "on_fs (os_Create (dlPath video))
               (log_Printf (Message (srcPath video @ '': Created owned file'')) st1) = (None, st3)"
    and dl: "uploadHandler_download r video st3 = (Inr title, st4)"
    and rn: "fst (os_Rename (dlPath video) (srcPath video) (fs st4)) = None"
    and refused: "\<not> fst (AddIfSpace (fastProcessQueue st4) (WorkFast video))"
  shows "status = StatusServiceUnavailable \<and>
         err = Some (errorString ''Process queue full'') \<and> rep = NoReply \<and>
         fastProcessQueue st' = fastProcessQueue st \<and>
         slowProcessQueue st' = slowProcessQueue st4 \<and>
         calls st' = calls st4 \<and>
         logs st' = logs st4 @
           [Message (srcPath video @ '': Downloaded video data''),
            Message (srcPath video @ '': Process queue full: cancelling processsing''),
            outcome_line e1 (srcPath video) ''Delete source file'',
            outcome_line e2 (srcPath video) ''Delete serve video file'',
            outcome_line e3 (srcPath video) ''Delete serve thumbnail file''] \<and>
         files (fs st') = files w4 \<and>
         (e1 = None \<longrightarrow> files (fs st') (srcPath video) = None) \<and>
         (e2 = None \<longrightarrow> files (fs st') (getOwnerPath (servePath video)) = None \<and>
                          files (fs st') (servePath video) = None) \<and>
         (e3 = None \<longrightarrow> files (fs st') (getOwnerPath (thumbServePath video)) = None \<and>
                          files (fs st') (thumbServePath video) = None) \<and>
         (e2 \<noteq> None \<longrightarrow> files (fs st') (getOwnerPath (servePath video)) = Some user) \<and>
         (e3 \<noteq> None \<longrightarrow> files (fs st') (getOwnerPath (thumbServePath video)) = Some user) \<and>
         (quiet (fs st) \<longrightarrow> e1 = None \<and> e2 = None \<and> e3 = None)"
proof -
  note R = uploadHandler_reserve_result [OF res]
  obtain token k where k: "k < 10" and g: "generateToken (rand_Read k) = Inr token"
    and v: "video = createVideoToTranscode cfg token (Join [serveBase cfg, token @ ''.mp4''])
                     (Join [serveBase cfg, token @ ''.jpg'']) user"
    and m1: "files (fs st1) (getOwnerPath (servePath video)) = Some user"
    and m2: "files (fs st1) (getOwnerPath (thumbServePath video)) = Some user"
    using R by blast
  have q1: "fastProcessQueue st1 = fastProcessQueue st" and qu1: "quiet (fs st) \<longrightarrow> quiet (fs st1)"
    using R by simp_all
  note apart = job_paths [OF generateToken_no_slash [OF g] v]
  have st3: "fs st3 = snd (os_Create (dlPath video) (fs st1))"
    "fastProcessQueue st3 = fastProcessQueue st1"
    using on_fs_result [OF cr] by (simp_all add: log_Printf_def)
  have m3: "files (fs st3) (getOwnerPath (servePath video)) = Some user"
    "files (fs st3) (getOwnerPath (thumbServePath video)) = Some user"
    using m1 m2 apart by (auto simp: st3 os_Create_files)
  have qu3: "quiet (fs st) \<longrightarrow> quiet (fs st3)"
    using qu1 by (simp add: st3 quiet_os_Create)
  note D = uploadHandler_download_frame [OF dl]
  have q4: "fastProcessQueue st4 = fastProcessQueue st"
    using D q1 st3 by simp
  have m4: "files (fs st4) (getOwnerPath (servePath video)) = Some user"
    "files (fs st4) (getOwnerPath (thumbServePath video)) = Some user"
    using D m3 apart by auto
  have nr: "\<not> length (buffer (work (fastProcessQueue st4))) < capacity (work (fastProcessQueue st4))"
    using refused by (simp add: AddIfSpace_cases split: if_splits)
  have eq: "(case uploadHandler_process r user video title st4 of
               (answer, st5) \<Rightarrow> (answer, snd (on_fs (File_Close (dlPath video)) st5))) =
            ((status, err, rep), st')"
    using run by (simp add: uploadHandler_def res Let_def cr dl)
  note U = uploadHandler_process_unfold [OF rn nr, of r user title]
  define st5 where "st5 = st4\<lparr>fs := w4, logs := logs st4 @
                 [Message (srcPath video @ '': Downloaded video data''),
                  Message (srcPath video @ '': Process queue full: cancelling processsing''),
                  outcome_line e1 (srcPath video) ''Delete source file'',
                  outcome_line e2 (srcPath video) ''Delete serve video file'',
                  outcome_line e3 (srcPath video) ''Delete serve thumbnail file'']\<rparr>"
  have p: "uploadHandler_process r user video title st4 =
      ((StatusServiceUnavailable, Some (errorString ''Process queue full''), NoReply), st5)"
    using U by (simp add: st5_def w4_def e3_def w3_def e2_def w2_def e1_def w1_def)
  have ans: "status = StatusServiceUnavailable" "err = Some (errorString ''Process queue full'')"
    "rep = NoReply" and st': "st' = snd (on_fs (File_Close (dlPath video)) st5)"
    using eq unfolding p by simp_all
  have fin: "files (fs st') = files w4" "fastProcessQueue st' = fastProcessQueue st"
    "slowProcessQueue st' = slowProcessQueue st4" "calls st' = calls st4"
    "logs st' = logs st4 @
       [Message (srcPath video @ '': Downloaded video data''),
        Message (srcPath video @ '': Process queue full: cancelling processsing''),
        outcome_line e1 (srcPath video) ''Delete source file'',
        outcome_line e2 (srcPath video) ''Delete serve video file'',
        outcome_line e3 (srcPath video) ''Delete serve thumbnail file'']"
    by (simp_all add: st' st5_def q4)
  have rm: "(e1 = None \<longrightarrow> files w4 (srcPath video) = None) \<and>
     (e2 = None \<longrightarrow> files w4 (getOwnerPath (servePath video)) = None \<and>
                      files w4 (servePath video) = None) \<and>
     (e3 = None \<longrightarrow> files w4 (getOwnerPath (thumbServePath video)) = None \<and>
                      files w4 (thumbServePath video) = None)"
    unfolding e1_def e2_def e3_def w4_def w3_def w2_def
    by (rule rollback_removes)
  have f2: "files w2 x = files (fs st4) x" if "x \<noteq> dlPath video" "x \<noteq> srcPath video" for x
    unfolding w2_def w1_def using that by (simp add: os_Remove_files os_Rename_frame)
  have s2: "files w2 (getOwnerPath (servePath video)) = Some user"
    using f2 [of "getOwnerPath (servePath video)"] m4 apart by auto
  have t2: "files w2 (getOwnerPath (thumbServePath video)) = Some user"
    using f2 [of "getOwnerPath (thumbServePath video)"] m4 apart by auto
  have t3: "files w3 (getOwnerPath (thumbServePath video)) = Some user"
    unfolding w3_def using t2 apart
    by (simp add: Delete_frame [of "getOwnerPath (thumbServePath video)" "servePath video"])
  have keep2: "files w4 (getOwnerPath (servePath video)) = Some user" if "e2 \<noteq> None"
  proof -
    have "Delete (servePath video) user w2 = (e2, w3)" by (simp add: e2_def w3_def)
    from Delete_keeps_marker [OF this, of "servePath video"] that s2
    have "files w3 (getOwnerPath (servePath video)) = Some user" by simp
    then show ?thesis
      unfolding w4_def using apart
      by (simp add: Delete_frame [of "getOwnerPath (servePath video)" "thumbServePath video"])
  qed
  have keep3: "files w4 (getOwnerPath (thumbServePath video)) = Some user" if "e3 \<noteq> None"
  proof -
    have "Delete (thumbServePath video) user w3 = (e3, w4)" by (simp add: e3_def w4_def)
    from Delete_keeps_marker [OF this, of "thumbServePath video"] that t3
    show ?thesis by simp
  qed
  have qt: "e1 = None \<and> e2 = None \<and> e3 = None" if "quiet (fs st)"
  proof -
    have "quiet (fs st4)" using D qu3 that by simp
    then show ?thesis
      using rollback_quiet [of "fs st4" video user, OF _ rn m4 apart(1-6)]
      unfolding e1_def e2_def e3_def w1_def w2_def w3_def by blast
  qed
  show ?thesis
    using ans fin rm keep2 keep3 qt by simp
qed

text \<open>
  Claim C3, as the code has it. Take a run of the handler that reaches the submission
  to the fast queue: the reservation gave a job, the download file was created, the
  body was downloaded and the downloaded file was renamed to the source file. If
  \<open>AddIfSpace\<close> returns false there, the handler logs the cancelling message, calls the
  three removals in their order (source file, serve-video record, serve-thumbnail
  record), logs the outcome of each, and answers 503 with the error
  \<open>Process queue full\<close> whatever these outcomes are; the fast queue is as it was at
  the start of the request. A removal that succeeded has taken its file, or its
  record (marker, and data file if any), away. A \<open>Delete\<close> that failed has left the
  marker of its record in place, still naming the user: the reservation is then not
  fully released. When the operating system fails no call of the request, all three
  removals succeed. With the queue full the handler never answers with a success (400,
  500 or 503), and it answers 503 only in a run that reached the submission, for a job
  of this request, with \<open>AddIfSpace\<close> returning false.
\<close>

theorem uploadHandler_queue_full:
  assumes "uploadHandler cfg r user rand_Read st = ((status, err, rep), st')"
  shows
    "(\<forall>video st1 st3 title st4.
        uploadHandler_reserve cfg user rand_Read 0 st = (Inr (Some video), st1) \<and>
        on_fs (os_Create (dlPath video))
          (log_Printf (Message (srcPath video @ '': Created owned file'')) st1) = (None, st3) \<and>
        uploadHandler_download r video st3 = (Inr title, st4) \<and>
        fst (os_Rename (dlPath video) (srcPath video) (fs st4)) = None \<and>
        \<not> fst (AddIfSpace (fastProcessQueue st4) (WorkFast video)) \<longrightarrow>
        (let w1 = snd (os_Rename (dlPath video) (srcPath video) (fs st4));
             e1 = fst (os_Remove (srcPath video) w1);
             w2 = snd (os_Remove (srcPath video) w1);
             e2 = fst (Delete (servePath video) user w2);
             w3 = snd (Delete (servePath video) user w2);
             e3 = fst (Delete (thumbServePath video) user w3);
             w4 = snd (Delete (thumbServePath video) user w3)
         in status = StatusServiceUnavailable \<and>
            err = Some (errorString ''Process queue full'') \<and> rep = NoReply \<and>
            fastProcessQueue st' = fastProcessQueue st \<and>
            slowProcessQueue st' = slowProcessQueue st4 \<and>
            calls st' = calls st4 \<and>
            logs st' = logs st4 @
              [Message (srcPath video @ '': Downloaded video data''),
               Message (srcPath video @ '': Process queue full: cancelling processsing''),
               outcome_line e1 (srcPath video) ''Delete source file'',
               outcome_line e2 (srcPath video) ''Delete serve video file'',
               outcome_line e3 (srcPath video) ''Delete serve thumbnail file''] \<and>
            files (fs st') = files w4 \<and>
            (e1 = None \<longrightarrow> files (fs st') (srcPath video) = None) \<and>
            (e2 = None \<longrightarrow> files (fs st') (getOwnerPath (servePath video)) = None \<and>
                             files (fs st') (servePath video) = None) \<and>
            (e3 = None \<longrightarrow> files (fs st') (getOwnerPath (thumbServePath video)) = None \<and>
                             files (fs st') (thumbServePath video) = None) \<and>
            (e2 \<noteq> None \<longrightarrow> files (fs st') (getOwnerPath (servePath video)) = Some user) \<and>
            (e3 \<noteq> None \<longrightarrow>
               files (fs st') (getOwnerPath (thumbServePath video)) = Some user) \<and>
            (quiet (fs st) \<longrightarrow> e1 = None \<and> e2 = None \<and> e3 = None))) \<and>
     (\<not> length (buffer (work (fastProcessQueue st))) < capacity (work (fastProcessQueue st)) \<longrightarrow>
        status = StatusBadRequest \<or> status = StatusInternalServerError \<or>
        status = StatusServiceUnavailable) \<and>
     (status = StatusServiceUnavailable \<longrightarrow>
        (\<exists>token k video st1 st3 title st4.
           k < 10 \<and> generateToken (rand_Read k) = Inr token \<and>
           video = createVideoToTranscode cfg token (Join [serveBase cfg, token @ ''.mp4''])
                     (Join [serveBase cfg, token @ ''.jpg'']) user \<and>
           uploadHandler_reserve cfg user rand_Read 0 st = (Inr (Some video), st1) \<and>
           on_fs (os_Create (dlPath video))
             (log_Printf (Message (srcPath video @ '': Created owned file'')) st1) = (None, st3) \<and>
           uploadHandler_download r video st3 = (Inr title, st4) \<and>
           fst (os_Rename (dlPath video) (srcPath video) (fs st4)) = None \<and>
           \<not> fst (AddIfSpace (fastProcessQueue st4) (WorkFast video))))"
proof (intro conjI allI impI)
  fix video st1 st3 title st4
  assume "uploadHandler_reserve cfg user rand_Read 0 st = (Inr (Some video), st1) \<and>
        on_fs (os_Create (dlPath video))
          (log_Printf (Message (srcPath video @ '': Created owned file'')) st1) = (None, st3) \<and>
        uploadHandler_download r video st3 = (Inr title, st4) \<and>
        fst (os_Rename (dlPath video) (srcPath video) (fs st4)) = None \<and>
        \<not> fst (AddIfSpace (fastProcessQueue st4) (WorkFast video))"
  then have h: "uploadHandler_reserve cfg user rand_Read 0 st = (Inr (Some video), st1)"
    "on_fs (os_Create (dlPath video))
          (log_Printf (Message (srcPath video @ '': Created owned file'')) st1) = (None, st3)"
    "uploadHandler_download r video st3 = (Inr title, st4)"
    "fst (os_Rename (dlPath video) (srcPath video) (fs st4)) = None"
    "\<not> fst (AddIfSpace (fastProcessQueue st4) (WorkFast video))"
    by blast+
  show "let w1 = snd (os_Rename (dlPath video) (srcPath video) (fs st4));
             e1 = fst (os_Remove (srcPath video) w1);
             w2 = snd (os_Remove (srcPath video) w1);
             e2 = fst (Delete (servePath video) user w2);
             w3 = snd (Delete (servePath video) user w2);
             e3 = fst (Delete (thumbServePath video) user w3);
             w4 = snd (Delete (thumbServePath video) user w3)
         in status = StatusServiceUnavailable \<and>
            err = Some (errorString ''Process queue full'') \<and> rep = NoReply \<and>
            fastProcessQueue st' = fastProcessQueue st \<and>
            slowProcessQueue st' = slowProcessQueue st4 \<and>
            calls st' = calls st4 \<and>
            logs st' = logs st4 @
              [Message (srcPath video @ '': Downloaded video data''),
               Message (srcPath video @ '': Process queue full: cancelling processsing''),
               outcome_line e1 (srcPath video) ''Delete source file'',
               outcome_line e2 (srcPath video) ''Delete serve video file'',
               outcome_line e3 (srcPath video) ''Delete serve thumbnail file''] \<and>
            files (fs st') = files w4 \<and>
            (e1 = None \<longrightarrow> files (fs st') (srcPath video) = None) \<and>
            (e2 = None \<longrightarrow> files (fs st') (getOwnerPath (servePath video)) = None \<and>
                             files (fs st') (servePath video) = None) \<and>
            (e3 = None \<longrightarrow> files (fs st') (getOwnerPath (thumbServePath video)) = None \<and>
                             files (fs st') (thumbServePath video) = None) \<and>
            (e2 \<noteq> None \<longrightarrow> files (fs st') (getOwnerPath (servePath video)) = Some user) \<and>
            (e3 \<noteq> None \<longrightarrow>
               files (fs st') (getOwnerPath (thumbServePath video)) = Some user) \<and>
            (quiet (fs st) \<longrightarrow> e1 = None \<and> e2 = None \<and> e3 = None)"
    unfolding Let_def by (rule uploadHandler_rollback [OF assms h])
next
  assume "\<not> length (buffer (work (fastProcessQueue st))) < capacity (work (fastProcessQueue st))"
  then show "status = StatusBadRequest \<or> status = StatusInternalServerError \<or>
        status = StatusServiceUnavailable"
    using uploadHandler_answers [OF assms] by blast
next
  assume "status = StatusServiceUnavailable"
  then show "\<exists>token k video st1 st3 title st4.
           k < 10 \<and> generateToken (rand_Read k) = Inr token \<and>
           video = createVideoToTranscode cfg token (Join [serveBase cfg, token @ ''.mp4''])
                     (Join [serveBase cfg, token @ ''.jpg'']) user \<and>
           uploadHandler_reserve cfg user rand_Read 0 st = (Inr (Some video), st1) \<and>
           on_fs (os_Create (dlPath video))
             (log_Printf (Message (srcPath video @ '': Created owned file'')) st1) = (None, st3) \<and>
           uploadHandler_download r video st3 = (Inr title, st4) \<and>
           fst (os_Rename (dlPath video) (srcPath video) (fs st4)) = None \<and>
           \<not> fst (AddIfSpace (fastProcessQueue st4) (WorkFast video))"
    using uploadHandler_answers [OF assms] by blast
qed

theorem uploadHandler_queue_full_witness:
  "fst (uploadHandler
      \<lparr>tempBase = ''tmp'', serveBase = ''srv'', storageUri = ''http://h/s'', apiUri = ''http://h/api''\<rparr>
      \<lparr>Content_Type = ''video/mp4'', MultipartReader = Inr [], Body = ''raw'', Body_error = None,
        redirect_to = [], redirect_to_error = None, Encode_error = None\<rparr>
      ''alice'' (\<lambda>k. Inr ''abc'')
      \<lparr>fs = \<lparr>files = Map.empty, script = []\<rparr>,
        fastProcessQueue =
          \<lparr>work = \<lparr>capacity = 1,
                    buffer = [WorkSlow (createVideoToTranscode
                      \<lparr>tempBase = ''tmp'', serveBase = ''srv'', storageUri = ''http://h/s'', apiUri = ''http://h/api''\<rparr>
                      ''old'' ''srv/old.mp4'' ''srv/old.jpg'' ''bob'')],
                    sendq = []\<rparr>,
            stop = make_chan 0, workers = 4\<rparr>,
        slowProcessQueue = New 1, logs = [], calls = []\<rparr>) =
     (StatusServiceUnavailable, Some (errorString ''Process queue full''), NoReply) \<and>
   (let st' = snd (uploadHandler
      \<lparr>tempBase = ''tmp'', serveBase = ''srv'', storageUri = ''http://h/s'', apiUri = ''http://h/api''\<rparr>
      \<lparr>Content_Type = ''video/mp4'', MultipartReader = Inr [], Body = ''raw'', Body_error = None,
        redirect_to = [], redirect_to_error = None, Encode_error = None\<rparr>
      ''alice'' (\<lambda>k. Inr ''abc'')
      \<lparr>fs = \<lparr>files = Map.empty, script = []\<rparr>,
        fastProcessQueue =
          \<lparr>work = \<lparr>capacity = 1,
                    buffer = [WorkSlow (createVideoToTranscode
                      \<lparr>tempBase = ''tmp'', serveBase = ''srv'', storageUri = ''http://h/s'', apiUri = ''http://h/api''\<rparr>
                      ''old'' ''srv/old.mp4'' ''srv/old.jpg'' ''bob'')],
                    sendq = []\<rparr>,
            stop = make_chan 0, workers = 4\<rparr>,
        slowProcessQueue = New 1, logs = [], calls = []\<rparr>)
    in files (fs st') ''tmp/video-YWJj.src.mp4'' = None \<and>
       files (fs st') ''srv/video-YWJj.mp4.owner'' = None \<and>
       files (fs st') ''srv/video-YWJj.mp4'' = None \<and>
       files (fs st') ''srv/video-YWJj.jpg.owner'' = None \<and>
       files (fs st') ''srv/video-YWJj.jpg'' = None \<and>
       length (buffer (work (fastProcessQueue st'))) = 1)"
proof -
  let ?cfg = "\<lparr>tempBase = ''tmp'', serveBase = ''srv'', storageUri = ''http://h/s'', apiUri = ''http://h/api''\<rparr>"
  let ?r = "\<lparr>Content_Type = ''video/mp4'', MultipartReader = Inr [], Body = ''raw'', Body_error = None,
        redirect_to = [], redirect_to_error = None, Encode_error = None\<rparr>"
  let ?rnd = "\<lambda>k::nat. Inr ''abc'' :: error + string"
  let ?st = "\<lparr>fs = \<lparr>files = Map.empty, script = []\<rparr>,
        fastProcessQueue =
          \<lparr>work = \<lparr>capacity = 1,
                    buffer = [WorkSlow (createVideoToTranscode
                      \<lparr>tempBase = ''tmp'', serveBase = ''srv'', storageUri = ''http://h/s'', apiUri = ''http://h/api''\<rparr>
                      ''old'' ''srv/old.mp4'' ''srv/old.jpg'' ''bob'')],
                    sendq = []\<rparr>,
            stop = make_chan 0, workers = 4\<rparr>,
        slowProcessQueue = New 1, logs = [], calls = []\<rparr>"
  let ?video = "createVideoToTranscode ?cfg ''video-YWJj'' ''srv/video-YWJj.mp4''
                  ''srv/video-YWJj.jpg'' ''alice''"
  let ?res = "uploadHandler ?cfg ?r ''alice'' ?rnd ?st"
  let ?st1 = "snd (uploadHandler_reserve ?cfg ''alice'' ?rnd 0 ?st)"
  let ?st3 = "snd (on_fs (os_Create (dlPath ?video))
                 (log_Printf (Message (srcPath ?video @ '': Created owned file'')) ?st1))"
  let ?st4 = "snd (uploadHandler_download ?r ?video ?st3)"
  have run: "?res = ((fst (fst ?res), fst (snd (fst ?res)), snd (snd (fst ?res))), snd ?res)"
    by simp
  have h1: "uploadHandler_reserve ?cfg ''alice'' ?rnd 0 ?st = (Inr (Some ?video), ?st1)"
    by (simp add: prod_eq_iff uploadHandler_def uploadHandler_reserve.simps [of _ _ _ 0] generateToken_def
      encodeURL_def Join_def Clean_def clean_step_def on_fs_def Create_def unsafeCreateOwner_def
      os_Stat_def os_Create_def File_WriteString_def File_Close_def contents_def pending_def
      advance_def getOwnerPath_def createVideoToTranscode_def log_Printf_def
      uploadHandler_download_def HasPrefix_def io_Copy_def uploadHandler_process_def
      os_Rename_def AddIfSpace_def chan_send_default_def os_Remove_def Delete_def
      unsafeCheckOwner_def unsafeReadOwner_def ioutil_ReadFile_def os_IsNotExist_def
      logError_def Let_def)
  have h2: "on_fs (os_Create (dlPath ?video))
              (log_Printf (Message (srcPath ?video @ '': Created owned file'')) ?st1) = (None, ?st3)"
    by (simp add: prod_eq_iff uploadHandler_def uploadHandler_reserve.simps [of _ _ _ 0] generateToken_def
      encodeURL_def Join_def Clean_def clean_step_def on_fs_def Create_def unsafeCreateOwner_def
      os_Stat_def os_Create_def File_WriteString_def File_Close_def contents_def pending_def
      advance_def getOwnerPath_def createVideoToTranscode_def log_Printf_def
      uploadHandler_download_def HasPrefix_def io_Copy_def uploadHandler_process_def
      os_Rename_def AddIfSpace_def chan_send_default_def os_Remove_def Delete_def
      unsafeCheckOwner_def unsafeReadOwner_def ioutil_ReadFile_def os_IsNotExist_def
      logError_def Let_def)
  have h3: "uploadHandler_download ?r ?video ?st3 = (Inr [], ?st4)"
    by (simp add: prod_eq_iff uploadHandler_def uploadHandler_reserve.simps [of _ _ _ 0] generateToken_def
      encodeURL_def Join_def Clean_def clean_step_def on_fs_def Create_def unsafeCreateOwner_def
      os_Stat_def os_Create_def File_WriteString_def File_Close_def contents_def pending_def
      advance_def getOwnerPath_def createVideoToTranscode_def log_Printf_def
      uploadHandler_download_def HasPrefix_def io_Copy_def uploadHandler_process_def
      os_Rename_def AddIfSpace_def chan_send_default_def os_Remove_def Delete_def
      unsafeCheckOwner_def unsafeReadOwner_def ioutil_ReadFile_def os_IsNotExist_def
      logError_def Let_def)
  have h4: "fst (os_Rename (dlPath ?video) (srcPath ?video) (fs ?st4)) = None"
    by (simp add: uploadHandler_def uploadHandler_reserve.simps [of _ _ _ 0] generateToken_def
      encodeURL_def Join_def Clean_def clean_step_def on_fs_def Create_def unsafeCreateOwner_def
      os_Stat_def os_Create_def File_WriteString_def File_Close_def contents_def pending_def
      advance_def getOwnerPath_def createVideoToTranscode_def log_Printf_def
      uploadHandler_download_def HasPrefix_def io_Copy_def uploadHandler_process_def
      os_Rename_def AddIfSpace_def chan_send_default_def os_Remove_def Delete_def
      unsafeCheckOwner_def unsafeReadOwner_def ioutil_ReadFile_def os_IsNotExist_def
      logError_def Let_def)
  have h5: "\<not> fst (AddIfSpace (fastProcessQueue ?st4) (WorkFast ?video))"
    by (simp add: uploadHandler_def uploadHandler_reserve.simps [of _ _ _ 0] generateToken_def
      encodeURL_def Join_def Clean_def clean_step_def on_fs_def Create_def unsafeCreateOwner_def
      os_Stat_def os_Create_def File_WriteString_def File_Close_def contents_def pending_def
      advance_def getOwnerPath_def createVideoToTranscode_def log_Printf_def
      uploadHandler_download_def HasPrefix_def io_Copy_def uploadHandler_process_def
      os_Rename_def AddIfSpace_def chan_send_default_def os_Remove_def Delete_def
      unsafeCheckOwner_def unsafeReadOwner_def ioutil_ReadFile_def os_IsNotExist_def
      logError_def Let_def)
  have q: "quiet (fs ?st)"
    by (simp add: quiet_def)
  note T = uploadHandler_queue_full [OF run, THEN conjunct1, rule_format, OF conjI [OF h1
      conjI [OF h2 conjI [OF h3 conjI [OF h4 h5]]]], unfolded Let_def]
  have paths: "srcPath ?video = ''tmp/video-YWJj.src.mp4''"
    "getOwnerPath (servePath ?video) = ''srv/video-YWJj.mp4.owner''"
    "servePath ?video = ''srv/video-YWJj.mp4''"
    "getOwnerPath (thumbServePath ?video) = ''srv/video-YWJj.jpg.owner''"
    "thumbServePath ?video = ''srv/video-YWJj.jpg''"
    by (simp_all add: createVideoToTranscode_def Join_def Clean_def clean_step_def
        getOwnerPath_def)
  have a: "fst ?res = (StatusServiceUnavailable, Some (errorString ''Process queue full''), NoReply)"
    using T by (simp add: prod_eq_iff)
  define w1 where "w1 = snd (os_Rename (dlPath ?video) (srcPath ?video) (fs ?st4))"
  define e1 where "e1 = fst (os_Remove (srcPath ?video) w1)"
  define w2 where "w2 = snd (os_Remove (srcPath ?video) w1)"
  define e2 where "e2 = fst (Delete (servePath ?video) ''alice'' w2)"
  define w3 where "w3 = snd (Delete (servePath ?video) ''alice'' w2)"
  define e3 where "e3 = fst (Delete (thumbServePath ?video) ''alice'' w3)"
  define st' where "st' = snd ?res"
  note T' = T [folded w1_def, folded e1_def w2_def, folded e2_def w3_def, folded e3_def,
      folded st'_def]
  have e: "e1 = None \<and> e2 = None \<and> e3 = None"
    using T' q by blast
  have g: "files (fs st') (srcPath ?video) = None"
    "files (fs st') (getOwnerPath (servePath ?video)) = None"
    "files (fs st') (servePath ?video) = None"
    "files (fs st') (getOwnerPath (thumbServePath ?video)) = None"
    "files (fs st') (thumbServePath ?video) = None"
    using T' e by blast+
  have b: "fastProcessQueue st' = fastProcessQueue ?st"
    using T' by blast
  show ?thesis
    using a g [unfolded paths] unfolding Let_def st'_def [symmetric] b
    by (simp add: getOwnerPath_def)
qed

text \<open>
  The claim as worded fails when a removal of the rollback fails. In this run every
  call of the operating system succeeds up to the last removal, that of the marker of
  the thumbnail record, which fails. The queue is full, \<open>AddIfSpace\<close> returns false and
  the handler answers 503, the source file and the serve-video record are gone, and the
  serve-thumbnail record is still there, naming the user: the reservation is left
  half-claimed.
\<close>

theorem uploadHandler_queue_full_counterexample:
  "fst (uploadHandler
      \<lparr>tempBase = ''tmp'', serveBase = ''srv'', storageUri = ''http://h/s'', apiUri = ''http://h/api''\<rparr>
      \<lparr>Content_Type = ''video/mp4'', MultipartReader = Inr [], Body = ''raw'', Body_error = None,
        redirect_to = [], redirect_to_error = None, Encode_error = None\<rparr>
      ''alice'' (\<lambda>k. Inr ''abc'')
      \<lparr>fs = \<lparr>files = Map.empty, script = [Succeeds, Succeeds, Succeeds, Succeeds, Succeeds, Succeeds, Succeeds, Succeeds, Succeeds,
                          Succeeds, Succeeds, Succeeds, Succeeds, Fails 5 0]\<rparr>,
        fastProcessQueue =
          \<lparr>work = \<lparr>capacity = 1,
                    buffer = [WorkSlow (createVideoToTranscode
                      \<lparr>tempBase = ''tmp'', serveBase = ''srv'', storageUri = ''http://h/s'', apiUri = ''http://h/api''\<rparr>
                      ''old'' ''srv/old.mp4'' ''srv/old.jpg'' ''bob'')],
                    sendq = []\<rparr>,
            stop = make_chan 0, workers = 4\<rparr>,
        slowProcessQueue = New 1, logs = [], calls = []\<rparr>) =
     (StatusServiceUnavailable, Some (errorString ''Process queue full''), NoReply) \<and>
   (let st' = snd (uploadHandler
      \<lparr>tempBase = ''tmp'', serveBase = ''srv'', storageUri = ''http://h/s'', apiUri = ''http://h/api''\<rparr>
      \<lparr>Content_Type = ''video/mp4'', MultipartReader = Inr [], Body = ''raw'', Body_error = None,
        redirect_to = [], redirect_to_error = None, Encode_error = None\<rparr>
      ''alice'' (\<lambda>k. Inr ''abc'')
      \<lparr>fs = \<lparr>files = Map.empty, script = [Succeeds, Succeeds, Succeeds, Succeeds, Succeeds, Succeeds, Succeeds, Succeeds, Succeeds,
                          Succeeds, Succeeds, Succeeds, Succeeds, Fails 5 0]\<rparr>,
        fastProcessQueue =
          \<lparr>work = \<lparr>capacity = 1,
                    buffer = [WorkSlow (createVideoToTranscode
                      \<lparr>tempBase = ''tmp'', serveBase = ''srv'', storageUri = ''http://h/s'', apiUri = ''http://h/api''\<rparr>
                      ''old'' ''srv/old.mp4'' ''srv/old.jpg'' ''bob'')],
                    sendq = []\<rparr>,
            stop = make_chan 0, workers = 4\<rparr>,
        slowProcessQueue = New 1, logs = [], calls = []\<rparr>)
    in files (fs st') ''tmp/video-YWJj.src.mp4'' = None \<and>
       files (fs st') ''srv/video-YWJj.mp4.owner'' = None \<and>
       files (fs st') ''srv/video-YWJj.jpg.owner'' = Some ''alice'' \<and>
       ReadOwner ''srv/video-YWJj.jpg'' (fs st') = Inr ''alice'' \<and>
       last (logs st') = Failed ''tmp/video-YWJj.src.mp4'' ''Delete serve thumbnail file''
                           (PathError (EOTHER 5)))"
  by (simp add: ReadOwner_def uploadHandler_def uploadHandler_reserve.simps [of _ _ _ 0] generateToken_def
      encodeURL_def Join_def Clean_def clean_step_def on_fs_def Create_def unsafeCreateOwner_def
      os_Stat_def os_Create_def File_WriteString_def File_Close_def contents_def pending_def
      advance_def getOwnerPath_def createVideoToTranscode_def log_Printf_def
      uploadHandler_download_def HasPrefix_def io_Copy_def uploadHandler_process_def
      os_Rename_def AddIfSpace_def chan_send_default_def os_Remove_def Delete_def
      unsafeCheckOwner_def unsafeReadOwner_def ioutil_ReadFile_def os_IsNotExist_def
      logError_def Let_def)

end
